theory Spec2Isabelle
  imports Main "HOL-Library.Word"
begin

section \<open>The calc command line: data model\<close>

text \<open>
  The repository holds two revisions of \<^verbatim>\<open>main.cpp\<close>. The first keeps its operands as
  \<^verbatim>\<open>std::int64_t\<close> in a \<^verbatim>\<open>context\<close> struct and runs \<^verbatim>\<open>parse\<close>, \<^verbatim>\<open>check\<close>, \<^verbatim>\<open>calc\<close>,
  \<^verbatim>\<open>print_result\<close>; the second keeps them as \<^verbatim>\<open>int\<close> in the locals of \<^verbatim>\<open>main\<close> and runs
  \<^verbatim>\<open>run_operation\<close>. Both are embedded here. Names follow the source; the scoped enumerators
  \<^verbatim>\<open>operation::add\<close>, \<^verbatim>\<open>exit_code::ok\<close>, \<^verbatim>\<open>ml_error::ok\<close>, \<^verbatim>\<open>ml_kind::i64\<close> are written
  \<open>op_add\<close>, \<open>exit_ok\<close>, \<open>ml_ok\<close>, \<open>kind_i64\<close>; \<^verbatim>\<open>help\<close> and \<^verbatim>\<open>context\<close> are reserved
  words of Isabelle and are written \<open>help_c\<close> and \<open>context_c\<close>; the fields \<^verbatim>\<open>c.op\<close>, \<^verbatim>\<open>c.a\<close>,
  ... of the struct are \<open>c_op c\<close>, \<open>c_a c\<close>, ...
\<close>

datatype operation = op_none | op_add | op_sub | op_mul | op_div | op_pow | op_fact

datatype exit_code = exit_ok | exit_usage | exit_math

text \<open>\<^verbatim>\<open>static_cast<int>(rc)\<close>: the enumerators' values \<^verbatim>\<open>ok = 0, usage = 1, math = 2\<close>.\<close>

fun exit_status :: "exit_code \<Rightarrow> int" where
  "exit_status exit_ok = 0"
| "exit_status exit_usage = 1"
| "exit_status exit_math = 2"

subsection \<open>The interface of mathlib\<close>

text \<open>
  \<^verbatim>\<open>mathlib.h\<close> is an external library and is not among the sources. Its types are taken
  as the two programs use them: an error code compared with \<^verbatim>\<open>ok\<close>, \<^verbatim>\<open>div0\<close> and
  \<^verbatim>\<open>overflow\<close> (any other code falls in the \<^verbatim>\<open>else\<close> branches: \<open>ml_other\<close>), a kind tag
  compared with \<^verbatim>\<open>i64\<close>, and a payload. The payload of the first program is a union of
  \<^verbatim>\<open>i64\<close> and \<^verbatim>\<open>u64\<close>, that is one 64-bit word read signed (\<open>sint\<close>) or unsigned
  (\<open>uint\<close>); the second program reads an \<^verbatim>\<open>int\<close>. The library's functions are a parameter
  of the programs: the record \<open>engine\<close>.
\<close>

datatype ml_error = ml_ok | ml_div0 | ml_overflow | ml_other

datatype ml_kind = kind_i64 | kind_u64

record 'v ml_result =
  r_error :: ml_error
  r_kind :: ml_kind
  r_value :: 'v

record 'v engine =
  ml_add :: "'v \<Rightarrow> 'v \<Rightarrow> 'v ml_result"
  ml_sub :: "'v \<Rightarrow> 'v \<Rightarrow> 'v ml_result"
  ml_mul :: "'v \<Rightarrow> 'v \<Rightarrow> 'v ml_result"
  ml_div :: "'v \<Rightarrow> 'v \<Rightarrow> 'v ml_result"
  ml_pow :: "'v \<Rightarrow> 'v \<Rightarrow> 'v ml_result"
  ml_fact :: "'v \<Rightarrow> 'v ml_result"

text \<open>
  The trace of calls into mathlib: every call site of the source appends the call, with
  the arguments it passes, to \<open>calls\<close>. The exponent of \<open>Call_pow\<close> and the argument of
  \<open>Call_fact\<close> are the library's unsigned parameters, read with \<open>uint\<close>.
\<close>

datatype 'v engine_call =
    Call_add 'v 'v
  | Call_sub 'v 'v
  | Call_mul 'v 'v
  | Call_div 'v 'v
  | Call_pow 'v 'v
  | Call_fact 'v

subsection \<open>The process's effects\<close>

text \<open>
  What the process writes to standard output and to standard error, in order, and the
  trace of its calls into mathlib. A function of the source that prints takes the world
  and returns it updated.
\<close>

record 'v world =
  stdout :: string
  stderr :: string
  calls :: "'v engine_call list"

definition world0 :: "'v world" where
  "world0 = \<lparr>stdout = [], stderr = [], calls = []\<rparr>"

definition put_out :: "string \<Rightarrow> 'v world \<Rightarrow> 'v world" where
  "put_out s w = w\<lparr>stdout := stdout w @ s\<rparr>"

definition put_err :: "string \<Rightarrow> 'v world \<Rightarrow> 'v world" where
  "put_err s w = w\<lparr>stderr := stderr w @ s\<rparr>"

definition log_call :: "'v engine_call \<Rightarrow> 'v world \<Rightarrow> 'v world" where
  "log_call k w = w\<lparr>calls := calls w @ [k]\<rparr>"

subsection \<open>printf's conversions\<close>

text \<open>\<^verbatim>\<open>%llu\<close>: a natural number in decimal, most significant digit first.\<close>

definition digit_char :: "nat \<Rightarrow> char" where
  "digit_char d = ''0123456789'' ! d"

fun dec_digits :: "nat \<Rightarrow> string" where
  "dec_digits n =
     (if n < 10 then [digit_char n]
      else dec_digits (n div 10) @ [digit_char (n mod 10)])"

declare dec_digits.simps [simp del]

text \<open>\<^verbatim>\<open>%lld\<close> and \<^verbatim>\<open>%d\<close>: a minus sign before the digits of a negative number.\<close>

definition dec_int :: "int \<Rightarrow> string" where
  "dec_int i = (if i < 0 then CHR ''-'' # dec_digits (nat (- i)) else dec_digits (nat i))"

subsection \<open>The usage text\<close>

definition usage_text :: "string \<Rightarrow> string" where
  "usage_text prog =
     ''Usage:\<newline>'' @
     ''  '' @ prog @ '' -o <op> -a <int> [-b <int>]\<newline>'' @
     ''\<newline>'' @
     ''Operations:\<newline>'' @
     ''  add   a + b\<newline>'' @
     ''  sub   a - b\<newline>'' @
     ''  mul   a * b\<newline>'' @
     ''  div   a / b   (checks division by 0)\<newline>'' @
     ''  pow   a ^ b   (b must be >= 0)\<newline>'' @
     ''  fact  a!      (a must be >= 0)\<newline>'' @
     ''\<newline>'' @
     ''Options:\<newline>'' @
     ''  -o, --op     operation name\<newline>'' @
     ''  -a, --a      first integer\<newline>'' @
     ''  -b, --b      second integer (required for add/sub/mul/div/pow)\<newline>'' @
     ''  -h, --help   show this help\<newline>'' @
     ''\<newline>'' @
     ''Examples:\<newline>'' @
     ''  '' @ prog @ '' -o add  -a 2  -b 3\<newline>'' @
     ''  '' @ prog @ '' -o fact -a 5\<newline>''"

text \<open>\<^verbatim>\<open>help\<close> (first program) and \<^verbatim>\<open>print_help\<close> (second program): the same
  \<^verbatim>\<open>std::printf\<close>, to standard output.\<close>

definition help_c :: "string \<Rightarrow> 'v world \<Rightarrow> 'v world" where
  "help_c prog w = put_out (usage_text prog) w"

definition print_help :: "string \<Rightarrow> 'v world \<Rightarrow> 'v world" where
  "print_help prog w = put_out (usage_text prog) w"

section \<open>Parsing an operand: strtoll and strtol\<close>

text \<open>
  \<^verbatim>\<open>strtoll(s, &end, 10)\<close> is the C library's. As the C standard describes it, it skips
  the initial white space (\<^verbatim>\<open>isspace\<close> in the C locale), reads an optional sign and the
  longest run of decimal digits, and leaves \<^verbatim>\<open>end\<close> after the last digit; with no digit
  there is no conversion and \<^verbatim>\<open>end == s\<close>. A value out of the range of \<^verbatim>\<open>long long\<close>
  gives \<^verbatim>\<open>LLONG_MAX\<close> or \<^verbatim>\<open>LLONG_MIN\<close> and sets \<^verbatim>\<open>errno\<close> to \<^verbatim>\<open>ERANGE\<close>. The model
  returns the value, the offset of \<^verbatim>\<open>end\<close> from \<^verbatim>\<open>s\<close> and whether \<^verbatim>\<open>ERANGE\<close> was set.
  A C string holds no NUL, so \<^verbatim>\<open>*end != '\0'\<close> is: the offset is not the length.
\<close>

definition isspace :: "char \<Rightarrow> bool" where
  "isspace c = (c = CHR '' '' \<or> ((9::nat) \<le> of_char c \<and> (of_char c :: nat) \<le> 13))"

definition isdigit :: "char \<Rightarrow> bool" where
  "isdigit c = ((48::nat) \<le> of_char c \<and> (of_char c :: nat) \<le> 57)"

text \<open>The digits read so far times ten, plus the next digit.\<close>

definition digits_value :: "string \<Rightarrow> int" where
  "digits_value ds = foldl (\<lambda>acc c. 10 * acc + (of_char c - 48)) 0 ds"

definition LLONG_MAX :: int where "LLONG_MAX = 2 ^ 63 - 1"
definition LLONG_MIN :: int where "LLONG_MIN = - (2 ^ 63)"
definition INT_MAX :: int where "INT_MAX = 2 ^ 31 - 1"
definition INT_MIN :: int where "INT_MIN = - (2 ^ 31)"

definition strtoll :: "string \<Rightarrow> int \<times> nat \<times> bool" where
  "strtoll s =
     (let ws = takeWhile isspace s;
          s1 = dropWhile isspace s;
          signed = (s1 \<noteq> [] \<and> (hd s1 = CHR ''-'' \<or> hd s1 = CHR ''+''));
          neg = (s1 \<noteq> [] \<and> hd s1 = CHR ''-'');
          s2 = (if signed then tl s1 else s1);
          ds = takeWhile isdigit s2;
          v = (if neg then - digits_value ds else digits_value ds);
          endp = length ws + (if signed then 1 else 0) + length ds
      in if ds = [] then (0, 0, False)
         else if v > LLONG_MAX then (LLONG_MAX, endp, True)
         else if v < LLONG_MIN then (LLONG_MIN, endp, True)
         else (v, endp, False))"

text \<open>\<^verbatim>\<open>long\<close> is 64 bits wide where the programs build (LP64: they include
  \<^verbatim>\<open>getopt.h\<close>), so \<^verbatim>\<open>strtol\<close> is \<^verbatim>\<open>strtoll\<close>.\<close>

definition strtol :: "string \<Rightarrow> int \<times> nat \<times> bool" where
  "strtol s = strtoll s"

text \<open>
  \<^verbatim>\<open>parse_i64(s, out)\<close>: \<open>None\<close> is \<^verbatim>\<open>false\<close> (and \<^verbatim>\<open>*out\<close> untouched), \<open>Some v\<close> is
  \<^verbatim>\<open>true\<close> with \<^verbatim>\<open>*out = v\<close>. The argument \<open>None\<close> is the null pointer; \<^verbatim>\<open>out\<close> is never
  null at the call sites.
\<close>

definition parse_i64 :: "string option \<Rightarrow> 64 word option" where
  "parse_i64 s =
     (case s of
        None \<Rightarrow> None
      | Some str \<Rightarrow>
          (case strtoll str of
             (v, endp, erange) \<Rightarrow>
               if endp = 0 \<or> endp \<noteq> length str then None
               else if erange then None
               else Some (word_of_int v)))"

text \<open>\<^verbatim>\<open>parse_int(s, out)\<close> of the second program: no \<^verbatim>\<open>errno\<close> test, a range test
  against \<^verbatim>\<open>INT_MIN\<close> and \<^verbatim>\<open>INT_MAX\<close> instead.\<close>

definition parse_int :: "string option \<Rightarrow> 32 word option" where
  "parse_int s =
     (case s of
        None \<Rightarrow> None
      | Some str \<Rightarrow>
          (case strtol str of
             (v, endp, erange) \<Rightarrow>
               if endp = 0 \<or> endp \<noteq> length str then None
               else if v < INT_MIN \<or> v > INT_MAX then None
               else Some (word_of_int v)))"

subsection \<open>The operation table\<close>

definition kOps :: "(string \<times> operation) list" where
  "kOps =
     [(''add'', op_add), (''sub'', op_sub), (''mul'', op_mul),
      (''div'', op_div), (''pow'', op_pow), (''fact'', op_fact)]"

text \<open>The loop over \<^verbatim>\<open>kOps\<close>: the first entry whose name \<^verbatim>\<open>strcmp\<close> finds equal.\<close>

fun kOps_find :: "(string \<times> operation) list \<Rightarrow> string \<Rightarrow> operation option" where
  "kOps_find [] s = None"
| "kOps_find ((name, v) # rest) s = (if s = name then Some v else kOps_find rest s)"

definition parse_op :: "string option \<Rightarrow> operation option" where
  "parse_op s = (case s of None \<Rightarrow> None | Some str \<Rightarrow> kOps_find kOps str)"

definition parse_operation :: "string option \<Rightarrow> operation option" where
  "parse_operation s = (case s of None \<Rightarrow> None | Some str \<Rightarrow> kOps_find kOps str)"

section \<open>What getopt_long hands to the programs\<close>

text \<open>
  \<^verbatim>\<open>getopt_long(argc, argv, "o:a:b:h", long_opts, nullptr)\<close> is the C library's; both
  programs read the command line only through the sequence of its returns. One return is
  the option character with \<^verbatim>\<open>optarg\<close>: \<^verbatim>\<open>'o'\<close>, \<^verbatim>\<open>'a'\<close> and \<^verbatim>\<open>'b'\<close> take a required
  argument, so \<^verbatim>\<open>optarg\<close> is a string there; \<^verbatim>\<open>'h'\<close> has none; every other return
  (\<^verbatim>\<open>'?'\<close> for an unknown option or a missing argument) takes the \<^verbatim>\<open>default\<close> branch. The
  list ends where \<^verbatim>\<open>getopt_long\<close> returns \<^verbatim>\<open>-1\<close>.
\<close>

datatype getopt_ret = Ret_o string | Ret_a string | Ret_b string | Ret_h | Ret_other

section \<open>The first program: 64-bit operands\<close>

record context_c =
  c_op :: operation
  c_have_op :: bool
  c_a :: "64 word"
  c_have_a :: bool
  c_b :: "64 word"
  c_have_b :: bool
  c_r :: "64 word ml_result"

text \<open>\<^verbatim>\<open>context c {}\<close>: the default member initialisers; \<^verbatim>\<open>r\<close> is value-initialised
  and is written by \<^verbatim>\<open>calc\<close> before \<^verbatim>\<open>print_result\<close> reads it.\<close>

definition context0 :: context_c where
  "context0 =
     \<lparr>c_op = op_none, c_have_op = False, c_a = 0, c_have_a = False,
      c_b = 0, c_have_b = False,
      c_r = \<lparr>r_error = ml_ok, r_kind = kind_i64, r_value = 0\<rparr>\<rparr>"

definition needs_b :: "operation \<Rightarrow> bool" where
  "needs_b v = (v = op_add \<or> v = op_sub \<or> v = op_mul \<or> v = op_div \<or> v = op_pow)"

definition print_math_err :: "string \<Rightarrow> ml_error \<Rightarrow> 'v world \<Rightarrow> exit_code \<times> 'v world" where
  "print_math_err whr e w =
     (if e = ml_div0 then (exit_math, put_err (''Error: '' @ whr @ '': division by zero\<newline>'') w)
      else if e = ml_overflow then (exit_math, put_err (''Error: '' @ whr @ '': overflow\<newline>'') w)
      else (exit_math, put_err (''Error: '' @ whr @ '': math error\<newline>'') w))"

definition print_result :: "64 word ml_result \<Rightarrow> 64 word world \<Rightarrow> exit_code \<times> 64 word world" where
  "print_result r w =
     (if r_error r \<noteq> ml_ok then print_math_err ''calc'' (r_error r) w
      else if r_kind r = kind_i64 then (exit_ok, put_out (dec_int (sint (r_value r)) @ ''\<newline>'') w)
      else (exit_ok, put_out (dec_digits (unat (r_value r)) @ ''\<newline>'') w))"

text \<open>
  The loop of \<^verbatim>\<open>parse\<close>, one return of \<^verbatim>\<open>getopt_long\<close> at a time. A failed
  \<^verbatim>\<open>parse_op\<close> or \<^verbatim>\<open>parse_i64\<close> stores \<^verbatim>\<open>false\<close> in the flag, leaves the value and returns.
\<close>

fun parse :: "getopt_ret list \<Rightarrow> string \<Rightarrow> context_c \<Rightarrow> 64 word world \<Rightarrow>
    exit_code \<times> context_c \<times> 64 word world" where
  "parse [] prog c w = (exit_ok, c, w)"
| "parse (Ret_o optarg # rest) prog c w =
     (case parse_op (Some optarg) of
        None \<Rightarrow>
          (exit_usage, c\<lparr>c_have_op := False\<rparr>,
           put_err (''Error: unknown operation '' @ [CHR 0x27] @ optarg @ [CHR 0x27] @ ''\<newline>'') w)
      | Some v \<Rightarrow> parse rest prog (c\<lparr>c_op := v, c_have_op := True\<rparr>) w)"
| "parse (Ret_a optarg # rest) prog c w =
     (case parse_i64 (Some optarg) of
        None \<Rightarrow>
          (exit_usage, c\<lparr>c_have_a := False\<rparr>,
           put_err (''Error: invalid integer for -a: '' @ [CHR 0x27] @ optarg @ [CHR 0x27] @ ''\<newline>'') w)
      | Some v \<Rightarrow> parse rest prog (c\<lparr>c_a := v, c_have_a := True\<rparr>) w)"
| "parse (Ret_b optarg # rest) prog c w =
     (case parse_i64 (Some optarg) of
        None \<Rightarrow>
          (exit_usage, c\<lparr>c_have_b := False\<rparr>,
           put_err (''Error: invalid integer for -b: '' @ [CHR 0x27] @ optarg @ [CHR 0x27] @ ''\<newline>'') w)
      | Some v \<Rightarrow> parse rest prog (c\<lparr>c_b := v, c_have_b := True\<rparr>) w)"
| "parse (Ret_h # rest) prog c w = (exit_usage, c, help_c prog w)"
| "parse (Ret_other # rest) prog c w = (exit_usage, c, help_c prog w)"

definition check :: "context_c \<Rightarrow> string \<Rightarrow> 64 word world \<Rightarrow> exit_code \<times> 64 word world" where
  "check c prog w =
     (if \<not> c_have_op c \<or> \<not> c_have_a c then
        (exit_usage, help_c prog (put_err ''Error: missing -o or -a\<newline>'' w))
      else if \<not> needs_b (c_op c) \<and> c_have_b c then
        (exit_usage, help_c prog (put_err ''Error: useless -b for this op\<newline>'' w))
      else if needs_b (c_op c) \<and> \<not> c_have_b c then
        (exit_usage, help_c prog (put_err ''Error: missing -b for this op\<newline>'' w))
      else if c_op c = op_pow \<and> sint (c_b c) < 0 then
        (exit_math, put_err ''Error: pow: domain error (b must be >= 0)\<newline>'' w)
      else if c_op c = op_fact \<and> sint (c_a c) < 0 then
        (exit_math, put_err ''Error: fact: domain error (a must be >= 0)\<newline>'' w)
      else (exit_ok, w))"

text \<open>\<^verbatim>\<open>static_cast<std::uint64_t>(x)\<close> of a signed \<^verbatim>\<open>x\<close>: the value of \<^verbatim>\<open>x\<close> modulo
  \<open>2 ^ 64\<close>, as an unsigned word.\<close>

definition to_uint64 :: "64 word \<Rightarrow> 64 word" where
  "to_uint64 x = word_of_int (sint x mod 2 ^ 64)"

definition calc :: "64 word engine \<Rightarrow> context_c \<Rightarrow> 64 word world \<Rightarrow>
    exit_code \<times> context_c \<times> 64 word world" where
  "calc E c w =
     (case c_op c of
        op_add \<Rightarrow>
          (exit_ok, c\<lparr>c_r := ml_add E (c_a c) (c_b c)\<rparr>, log_call (Call_add (c_a c) (c_b c)) w)
      | op_sub \<Rightarrow>
          (exit_ok, c\<lparr>c_r := ml_sub E (c_a c) (c_b c)\<rparr>, log_call (Call_sub (c_a c) (c_b c)) w)
      | op_mul \<Rightarrow>
          (exit_ok, c\<lparr>c_r := ml_mul E (c_a c) (c_b c)\<rparr>, log_call (Call_mul (c_a c) (c_b c)) w)
      | op_div \<Rightarrow>
          (exit_ok, c\<lparr>c_r := ml_div E (c_a c) (c_b c)\<rparr>, log_call (Call_div (c_a c) (c_b c)) w)
      | op_pow \<Rightarrow>
          (exit_ok, c\<lparr>c_r := ml_pow E (c_a c) (to_uint64 (c_b c))\<rparr>,
           log_call (Call_pow (c_a c) (to_uint64 (c_b c))) w)
      | op_fact \<Rightarrow>
          (exit_ok, c\<lparr>c_r := ml_fact E (to_uint64 (c_a c))\<rparr>,
           log_call (Call_fact (to_uint64 (c_a c))) w)
      | op_none \<Rightarrow> (exit_usage, c, put_err ''Error: unknown operation\<newline>'' w))"

text \<open>\<^verbatim>\<open>run\<close>, from the returns of \<^verbatim>\<open>getopt_long\<close> and \<^verbatim>\<open>argv[0]\<close>; \<^verbatim>\<open>main\<close> returns
  what \<^verbatim>\<open>run\<close> returns, as the process's exit status.\<close>

definition run :: "64 word engine \<Rightarrow> string \<Rightarrow> getopt_ret list \<Rightarrow> int \<times> 64 word world" where
  "run E prog rets =
     (case parse rets prog context0 world0 of
        (rc, c, w) \<Rightarrow>
          if rc \<noteq> exit_ok then (exit_status rc, w)
          else
            (case check c prog w of
               (rc1, w1) \<Rightarrow>
                 if rc1 \<noteq> exit_ok then (exit_status rc1, w1)
                 else
                   (case calc E c w1 of
                      (rc2, c2, w2) \<Rightarrow>
                        if rc2 \<noteq> exit_ok then (exit_status rc2, w2)
                        else
                          (case print_result (c_r c2) w2 of
                             (rc3, w3) \<Rightarrow> (exit_status rc3, w3)))))"

definition main :: "64 word engine \<Rightarrow> string \<Rightarrow> getopt_ret list \<Rightarrow> int \<times> 64 word world" where
  "main E prog rets = run E prog rets"

section \<open>The second program: int operands\<close>

text \<open>\<^verbatim>\<open>needs_b\<close> of the second program, a \<^verbatim>\<open>switch\<close>.\<close>

fun needs_b_sw :: "operation \<Rightarrow> bool" where
  "needs_b_sw op_add = True"
| "needs_b_sw op_sub = True"
| "needs_b_sw op_mul = True"
| "needs_b_sw op_div = True"
| "needs_b_sw op_pow = True"
| "needs_b_sw op_fact = False"
| "needs_b_sw op_none = False"

definition print_math_error :: "string \<Rightarrow> ml_error \<Rightarrow> 'v world \<Rightarrow> int \<times> 'v world" where
  "print_math_error name e w =
     (if e = ml_div0 then (exit_status exit_math, put_err (''Error: '' @ name @ '': division by zero\<newline>'') w)
      else (exit_status exit_math, put_err (''Error: '' @ name @ '': unknown math error\<newline>'') w))"

text \<open>\<^verbatim>\<open>static_cast<unsigned int>(x)\<close> of an \<^verbatim>\<open>int x\<close>: its value modulo \<open>2 ^ 32\<close>.\<close>

definition to_uint :: "32 word \<Rightarrow> 32 word" where
  "to_uint x = word_of_int (sint x mod 2 ^ 32)"

text \<open>\<^verbatim>\<open>run_operation\<close>: only the \<^verbatim>\<open>div\<close> case reads \<^verbatim>\<open>r.error\<close>; every case prints
  \<^verbatim>\<open>r.value\<close> with \<^verbatim>\<open>%d\<close>.\<close>

definition run_operation :: "32 word engine \<Rightarrow> operation \<Rightarrow> 32 word \<Rightarrow> 32 word \<Rightarrow>
    32 word world \<Rightarrow> int \<times> 32 word world" where
  "run_operation E v a b w =
     (case v of
        op_add \<Rightarrow>
          (let r = ml_add E a b; w1 = log_call (Call_add a b) w
           in (exit_status exit_ok, put_out (dec_int (sint (r_value r)) @ ''\<newline>'') w1))
      | op_sub \<Rightarrow>
          (let r = ml_sub E a b; w1 = log_call (Call_sub a b) w
           in (exit_status exit_ok, put_out (dec_int (sint (r_value r)) @ ''\<newline>'') w1))
      | op_mul \<Rightarrow>
          (let r = ml_mul E a b; w1 = log_call (Call_mul a b) w
           in (exit_status exit_ok, put_out (dec_int (sint (r_value r)) @ ''\<newline>'') w1))
      | op_div \<Rightarrow>
          (let r = ml_div E a b; w1 = log_call (Call_div a b) w
           in if r_error r \<noteq> ml_ok then print_math_error ''div'' (r_error r) w1
              else (exit_status exit_ok, put_out (dec_int (sint (r_value r)) @ ''\<newline>'') w1))
      | op_pow \<Rightarrow>
          if sint b < 0 then
            (exit_status exit_math, put_err ''Error: pow: domain error (b must be >= 0)\<newline>'' w)
          else
            (let r = ml_pow E a (to_uint b); w1 = log_call (Call_pow a (to_uint b)) w
             in (exit_status exit_ok, put_out (dec_int (sint (r_value r)) @ ''\<newline>'') w1))
      | op_fact \<Rightarrow>
          if sint a < 0 then
            (exit_status exit_math, put_err ''Error: fact: domain error (a must be >= 0)\<newline>'' w)
          else
            (let r = ml_fact E (to_uint a); w1 = log_call (Call_fact (to_uint a)) w
             in (exit_status exit_ok, put_out (dec_int (sint (r_value r)) @ ''\<newline>'') w1))
      | op_none \<Rightarrow> (exit_status exit_usage, put_err ''Error: unknown operation\<newline>'' w))"

text \<open>The locals of \<^verbatim>\<open>main\<close>: \<^verbatim>\<open>a\<close>, \<^verbatim>\<open>b\<close>, \<^verbatim>\<open>have_a\<close>, \<^verbatim>\<open>have_b\<close>, \<^verbatim>\<open>op\<close>,
  \<^verbatim>\<open>have_op\<close>.\<close>

record main_vars =
  v_a :: "32 word"
  v_b :: "32 word"
  v_have_a :: bool
  v_have_b :: bool
  v_op :: operation
  v_have_op :: bool

definition main_vars0 :: main_vars where
  "main_vars0 =
     \<lparr>v_a = 0, v_b = 0, v_have_a = False, v_have_b = False, v_op = op_none, v_have_op = False\<rparr>"

text \<open>The \<^verbatim>\<open>while\<close> loop of \<^verbatim>\<open>main\<close>: \<open>Some n\<close> when a case returns \<open>n\<close> from \<^verbatim>\<open>main\<close>,
  \<open>None\<close> when \<^verbatim>\<open>getopt_long\<close> returned \<^verbatim>\<open>-1\<close> and the loop ended.\<close>

fun main_loop :: "getopt_ret list \<Rightarrow> string \<Rightarrow> main_vars \<Rightarrow> 32 word world \<Rightarrow>
    int option \<times> main_vars \<times> 32 word world" where
  "main_loop [] prog vs w = (None, vs, w)"
| "main_loop (Ret_o optarg # rest) prog vs w =
     (case parse_operation (Some optarg) of
        None \<Rightarrow>
          (Some (exit_status exit_usage), vs\<lparr>v_have_op := False\<rparr>,
           put_err (''Error: unknown operation '' @ [CHR 0x27] @ optarg @ [CHR 0x27] @ ''\<newline>'') w)
      | Some v \<Rightarrow> main_loop rest prog (vs\<lparr>v_op := v, v_have_op := True\<rparr>) w)"
| "main_loop (Ret_a optarg # rest) prog vs w =
     (case parse_int (Some optarg) of
        None \<Rightarrow>
          (Some (exit_status exit_usage), vs\<lparr>v_have_a := False\<rparr>,
           put_err (''Error: invalid integer for -a: '' @ [CHR 0x27] @ optarg @ [CHR 0x27] @ ''\<newline>'') w)
      | Some v \<Rightarrow> main_loop rest prog (vs\<lparr>v_a := v, v_have_a := True\<rparr>) w)"
| "main_loop (Ret_b optarg # rest) prog vs w =
     (case parse_int (Some optarg) of
        None \<Rightarrow>
          (Some (exit_status exit_usage), vs\<lparr>v_have_b := False\<rparr>,
           put_err (''Error: invalid integer for -b: '' @ [CHR 0x27] @ optarg @ [CHR 0x27] @ ''\<newline>'') w)
      | Some v \<Rightarrow> main_loop rest prog (vs\<lparr>v_b := v, v_have_b := True\<rparr>) w)"
| "main_loop (Ret_h # rest) prog vs w = (Some (exit_status exit_ok), vs, print_help prog w)"
| "main_loop (Ret_other # rest) prog vs w = (Some (exit_status exit_usage), vs, print_help prog w)"

definition main_int :: "32 word engine \<Rightarrow> string \<Rightarrow> getopt_ret list \<Rightarrow> int \<times> 32 word world" where
  "main_int E prog rets =
     (case main_loop rets prog main_vars0 world0 of
        (Some n, vs, w) \<Rightarrow> (n, w)
      | (None, vs, w) \<Rightarrow>
          if \<not> v_have_op vs \<or> \<not> v_have_a vs then
            (exit_status exit_usage, print_help prog (put_err ''Error: missing required arguments\<newline>'' w))
          else if \<not> needs_b_sw (v_op vs) \<and> v_have_b vs then
            (exit_status exit_usage, print_help prog (put_err ''Error: useless -b for this operation\<newline>'' w))
          else if needs_b_sw (v_op vs) \<and> \<not> v_have_b vs then
            (exit_status exit_usage, print_help prog (put_err ''Error: missing -b for this operation\<newline>'' w))
          else if v_op vs = op_pow \<and> sint (v_b vs) < 0 then
            (exit_status exit_math, put_err ''Error: pow: domain error (b must be >= 0)\<newline>'' w)
          else run_operation E (v_op vs) (v_a vs) (v_b vs) w)"

section \<open>A reference engine\<close>

text \<open>
  Modelled from the spec: mathlib's \<^verbatim>\<open>ml_add\<close>, \<^verbatim>\<open>ml_sub\<close>, \<^verbatim>\<open>ml_mul\<close>, \<^verbatim>\<open>ml_div\<close>,
  \<^verbatim>\<open>ml_pow\<close> and \<^verbatim>\<open>ml_fact\<close> are not among the sources. The spec's table of the checked
  arithmetic engine gives each its result and its error conditions: the exact result when
  it is representable, \<^verbatim>\<open>overflow\<close> when it is not, \<^verbatim>\<open>divide-by-zero\<close> for a zero divisor,
  division truncating toward zero; a factorial and a power of a non-negative base carry an
  unsigned payload, everything else a signed one. A failure carries the payload 0. The
  programs take any engine; this one is the engine of the statements about what mathlib
  detects (overflow, division by zero) and instantiates the others at concrete inputs.
\<close>

definition checked_signed :: "int \<Rightarrow> 'a::len word ml_result" where
  "checked_signed x =
     (if - (2 ^ (LENGTH('a) - 1)) \<le> x \<and> x < 2 ^ (LENGTH('a) - 1)
      then \<lparr>r_error = ml_ok, r_kind = kind_i64, r_value = word_of_int x\<rparr>
      else \<lparr>r_error = ml_overflow, r_kind = kind_i64, r_value = 0\<rparr>)"

definition checked_unsigned :: "int \<Rightarrow> 'a::len word ml_result" where
  "checked_unsigned x =
     (if 0 \<le> x \<and> x < 2 ^ LENGTH('a)
      then \<lparr>r_error = ml_ok, r_kind = kind_u64, r_value = word_of_int x\<rparr>
      else \<lparr>r_error = ml_overflow, r_kind = kind_u64, r_value = 0\<rparr>)"

definition trunc_quot :: "int \<Rightarrow> int \<Rightarrow> int" where
  "trunc_quot x y = sgn x * sgn y * (\<bar>x\<bar> div \<bar>y\<bar>)"

definition ref_engine :: "'a::len word engine" where
  "ref_engine =
     \<lparr>ml_add = (\<lambda>x y. checked_signed (sint x + sint y)),
      ml_sub = (\<lambda>x y. checked_signed (sint x - sint y)),
      ml_mul = (\<lambda>x y. checked_signed (sint x * sint y)),
      ml_div = (\<lambda>x y. if y = 0 then \<lparr>r_error = ml_div0, r_kind = kind_i64, r_value = 0\<rparr>
                        else checked_signed (trunc_quot (sint x) (sint y))),
      ml_pow = (\<lambda>x n. if 0 \<le> sint x then checked_unsigned (sint x ^ unat n)
                        else checked_signed (sint x ^ unat n)),
      ml_fact = (\<lambda>n. checked_unsigned (fact (unat n)))\<rparr>"

text \<open>
  Modelled from the spec: the true mathematical result of a request and the range in which
  the engine can represent it. The spec's table gives the result of each operation
  (\<open>a + b\<close>, \<open>a - b\<close>, \<open>a * b\<close>, the quotient truncated toward zero, \<open>a ^ b\<close>, \<open>a!\<close>) over
  the integers; the range is that of the payload the reference engine uses for it: unsigned
  64-bit for a factorial and for a power of a non-negative base, signed 64-bit otherwise.
  The operands are the numbers the user gave, \<open>sint (c_a c)\<close> and \<open>sint (c_b c)\<close>.
\<close>

definition true_result :: "operation \<Rightarrow> int \<Rightarrow> int \<Rightarrow> int" where
  "true_result v x y =
     (case v of
        op_add \<Rightarrow> x + y
      | op_sub \<Rightarrow> x - y
      | op_mul \<Rightarrow> x * y
      | op_div \<Rightarrow> trunc_quot x y
      | op_pow \<Rightarrow> x ^ nat y
      | op_fact \<Rightarrow> fact (nat x)
      | op_none \<Rightarrow> 0)"

definition representable64 :: "operation \<Rightarrow> int \<Rightarrow> int \<Rightarrow> bool" where
  "representable64 v x z =
     (if v = op_fact \<or> (v = op_pow \<and> 0 \<le> x) then 0 \<le> z \<and> z < 2 ^ 64
      else - (2 ^ 63) \<le> z \<and> z < 2 ^ 63)"

section \<open>Notions the statements use\<close>

text \<open>
  A return of \<^verbatim>\<open>getopt_long\<close> that the loop of the first program accepts and goes on
  from: an \<^verbatim>\<open>-o\<close>, \<^verbatim>\<open>-a\<close> or \<^verbatim>\<open>-b\<close> whose argument \<^verbatim>\<open>parse_op\<close> or \<^verbatim>\<open>parse_i64\<close>
  takes. \<open>accepted_int\<close> is the same for the second program, with \<^verbatim>\<open>parse_operation\<close> and
  \<^verbatim>\<open>parse_int\<close>.
\<close>

fun accepted :: "getopt_ret \<Rightarrow> bool" where
  "accepted (Ret_o s) = (parse_op (Some s) \<noteq> None)"
| "accepted (Ret_a s) = (parse_i64 (Some s) \<noteq> None)"
| "accepted (Ret_b s) = (parse_i64 (Some s) \<noteq> None)"
| "accepted Ret_h = False"
| "accepted Ret_other = False"

fun accepted_int :: "getopt_ret \<Rightarrow> bool" where
  "accepted_int (Ret_o s) = (parse_operation (Some s) \<noteq> None)"
| "accepted_int (Ret_a s) = (parse_int (Some s) \<noteq> None)"
| "accepted_int (Ret_b s) = (parse_int (Some s) \<noteq> None)"
| "accepted_int Ret_h = False"
| "accepted_int Ret_other = False"

text \<open>The argument of the last \<^verbatim>\<open>-o\<close>, \<^verbatim>\<open>-a\<close>, \<^verbatim>\<open>-b\<close> of a command line, if there is
  one.\<close>

fun last_o :: "getopt_ret list \<Rightarrow> string option" where
  "last_o [] = None"
| "last_o (Ret_o s # rs) = (case last_o rs of None \<Rightarrow> Some s | Some t \<Rightarrow> Some t)"
| "last_o (r # rs) = last_o rs"

fun last_a :: "getopt_ret list \<Rightarrow> string option" where
  "last_a [] = None"
| "last_a (Ret_a s # rs) = (case last_a rs of None \<Rightarrow> Some s | Some t \<Rightarrow> Some t)"
| "last_a (r # rs) = last_a rs"

fun last_b :: "getopt_ret list \<Rightarrow> string option" where
  "last_b [] = None"
| "last_b (Ret_b s # rs) = (case last_b rs of None \<Rightarrow> Some s | Some t \<Rightarrow> Some t)"
| "last_b (r # rs) = last_b rs"

text \<open>What each program writes to standard error for a rejected \<^verbatim>\<open>-o\<close>, \<^verbatim>\<open>-a\<close> or
  \<^verbatim>\<open>-b\<close> (the two programs print the same lines).\<close>

fun rejection_line :: "getopt_ret \<Rightarrow> string" where
  "rejection_line (Ret_o s) = ''Error: unknown operation '' @ [CHR 0x27] @ s @ [CHR 0x27] @ ''\<newline>''"
| "rejection_line (Ret_a s) = ''Error: invalid integer for -a: '' @ [CHR 0x27] @ s @ [CHR 0x27] @ ''\<newline>''"
| "rejection_line (Ret_b s) = ''Error: invalid integer for -b: '' @ [CHR 0x27] @ s @ [CHR 0x27] @ ''\<newline>''"
| "rejection_line Ret_h = []"
| "rejection_line Ret_other = []"

fun is_operand_flag :: "getopt_ret \<Rightarrow> bool" where
  "is_operand_flag (Ret_o s) = True"
| "is_operand_flag (Ret_a s) = True"
| "is_operand_flag (Ret_b s) = True"
| "is_operand_flag Ret_h = False"
| "is_operand_flag Ret_other = False"

text \<open>What the engine returns for a call of the trace.\<close>

fun engine_result :: "'v engine \<Rightarrow> 'v engine_call \<Rightarrow> 'v ml_result" where
  "engine_result E (Call_add x y) = ml_add E x y"
| "engine_result E (Call_sub x y) = ml_sub E x y"
| "engine_result E (Call_mul x y) = ml_mul E x y"
| "engine_result E (Call_div x y) = ml_div E x y"
| "engine_result E (Call_pow x n) = ml_pow E x n"
| "engine_result E (Call_fact n) = ml_fact E n"

fun is_div_call :: "'v engine_call \<Rightarrow> bool" where
  "is_div_call (Call_div x y) = True"
| "is_div_call k = False"

text \<open>
  A base-10 signed integer, as a string: an optional sign, then one or more decimal digits,
  and nothing else; and the number it denotes.
\<close>

definition has_sign :: "string \<Rightarrow> bool" where
  "has_sign s = (s \<noteq> [] \<and> (hd s = CHR ''-'' \<or> hd s = CHR ''+''))"

definition base10_signed :: "string \<Rightarrow> bool" where
  "base10_signed s =
     (let ds = (if has_sign s then tl s else s) in ds \<noteq> [] \<and> list_all isdigit ds)"

definition base10_value :: "string \<Rightarrow> int" where
  "base10_value s =
     (if s \<noteq> [] \<and> hd s = CHR ''-'' then - digits_value (tl s)
      else if s \<noteq> [] \<and> hd s = CHR ''+'' then digits_value (tl s)
      else digits_value s)"

section \<open>Evaluating the programs\<close>

lemmas eval_defs =
  parse_i64_def parse_int_def strtoll_def strtol_def isspace_def isdigit_def digits_value_def
  LLONG_MAX_def LLONG_MIN_def INT_MAX_def INT_MIN_def Let_def parse_op_def parse_operation_def
  kOps_def context0_def world0_def main_vars0_def put_out_def put_err_def log_call_def
  help_c_def print_help_def needs_b_def check_def calc_def run_def main_def main_int_def
  run_operation_def print_result_def print_math_err_def print_math_error_def to_uint_def
  to_uint64_def ref_engine_def checked_signed_def checked_unsigned_def trunc_quot_def
  dec_int_def digit_char_def dec_digits.simps

lemma parse_ok_world:
  "parse rets prog c w = (exit_ok, c', w') \<Longrightarrow> w' = w"
proof (induction rets arbitrary: c)
  case Nil
  then show ?case by simp
next
  case (Cons r rets)
  then show ?case
    by (cases r) (auto split: option.splits)
qed

lemma main_loop_ok_world:
  "main_loop rets prog vs w = (None, vs', w') \<Longrightarrow> w' = w"
proof (induction rets arbitrary: vs)
  case Nil
  then show ?case by simp
next
  case (Cons r rets)
  then show ?case
    by (cases r) (auto split: option.splits)
qed

text \<open>Once \<^verbatim>\<open>-o\<close> has been accepted the flag stays set: an operation other than
  \<^verbatim>\<open>none\<close> after the loop means \<^verbatim>\<open>have_op\<close>.\<close>

lemma parse_have_op:
  "parse rets prog c w = (exit_ok, c', w') \<Longrightarrow> c_op c \<noteq> op_none \<longrightarrow> c_have_op c \<Longrightarrow>
   c_op c' \<noteq> op_none \<longrightarrow> c_have_op c'"
proof (induction rets arbitrary: c)
  case Nil
  then show ?case by simp
next
  case (Cons r rets)
  then show ?case
    by (cases r) (auto split: option.splits)
qed

lemma main_loop_have_op:
  "main_loop rets prog vs w = (None, vs', w') \<Longrightarrow> v_op vs \<noteq> op_none \<longrightarrow> v_have_op vs \<Longrightarrow>
   v_op vs' \<noteq> op_none \<longrightarrow> v_have_op vs'"
proof (induction rets arbitrary: vs)
  case Nil
  then show ?case by simp
next
  case (Cons r rets)
  then show ?case
    by (cases r) (auto split: option.splits)
qed

lemma parse0_have_op:
  "parse rets prog context0 world0 = (exit_ok, c, w) \<Longrightarrow> c_op c \<noteq> op_none \<Longrightarrow> c_have_op c"
  using parse_have_op [of rets prog context0 world0 c w] by (simp add: context0_def)

lemma main_loop0_have_op:
  "main_loop rets prog main_vars0 world0 = (None, vs, w) \<Longrightarrow> v_op vs \<noteq> op_none \<Longrightarrow> v_have_op vs"
  using main_loop_have_op [of rets prog main_vars0 world0 vs w] by (simp add: main_vars0_def)

section \<open>The option loops\<close>

lemma parse_accepted_prefix:
  "list_all accepted pre \<Longrightarrow> \<exists>c'. parse (pre @ rest) prog c w = parse rest prog c' w"
proof (induction pre arbitrary: c)
  case Nil
  then show ?case by auto
next
  case (Cons r pre)
  then show ?case
    by (cases r) (auto split: option.splits)
qed

lemma main_loop_accepted_prefix:
  "list_all accepted_int pre \<Longrightarrow> \<exists>vs'. main_loop (pre @ rest) prog vs w = main_loop rest prog vs' w"
proof (induction pre arbitrary: vs)
  case Nil
  then show ?case by auto
next
  case (Cons r pre)
  then show ?case
    by (cases r) (auto split: option.splits)
qed

lemma parse_rejected:
  "\<not> accepted bad \<Longrightarrow>
   \<exists>c'. parse (bad # post) prog c w =
     (exit_usage, c', if is_operand_flag bad then put_err (rejection_line bad) w else help_c prog w)"
  by (cases bad) (auto split: option.splits)

lemma main_loop_rejected:
  "\<not> accepted_int bad \<Longrightarrow>
   \<exists>vs'. main_loop (bad # post) prog vs w =
     (Some (if bad = Ret_h then 0 else 1), vs',
      if is_operand_flag bad then put_err (rejection_line bad) w else print_help prog w)"
  by (cases bad) (auto split: option.splits)

lemma run_rejected:
  assumes "list_all accepted pre" and "\<not> accepted bad"
  shows "run E prog (pre @ bad # post) =
     (1, if is_operand_flag bad then \<lparr>stdout = [], stderr = rejection_line bad, calls = []\<rparr>
         else \<lparr>stdout = usage_text prog, stderr = [], calls = []\<rparr>)"
proof -
  from parse_accepted_prefix [OF assms(1)] obtain c' where
    "parse (pre @ bad # post) prog context0 world0 = parse (bad # post) prog c' world0"
    by blast
  moreover from parse_rejected [OF assms(2)] obtain c'' where
    "parse (bad # post) prog c' world0 =
       (exit_usage, c'',
        if is_operand_flag bad then put_err (rejection_line bad) world0 else help_c prog world0)"
    by blast
  ultimately show ?thesis
    by (simp add: run_def put_err_def help_c_def put_out_def world0_def)
qed

lemma main_int_rejected:
  assumes "list_all accepted_int pre" and "\<not> accepted_int bad"
  shows "main_int E prog (pre @ bad # post) =
     (if bad = Ret_h then 0 else 1,
      if is_operand_flag bad then \<lparr>stdout = [], stderr = rejection_line bad, calls = []\<rparr>
      else \<lparr>stdout = usage_text prog, stderr = [], calls = []\<rparr>)"
proof -
  from main_loop_accepted_prefix [OF assms(1)] obtain vs' where
    "main_loop (pre @ bad # post) prog main_vars0 world0 = main_loop (bad # post) prog vs' world0"
    by blast
  moreover from main_loop_rejected [OF assms(2)] obtain vs'' where
    "main_loop (bad # post) prog vs' world0 =
       (Some (if bad = Ret_h then 0 else 1), vs'',
        if is_operand_flag bad then put_err (rejection_line bad) world0 else print_help prog world0)"
    by blast
  ultimately show ?thesis
    by (simp add: main_int_def put_err_def print_help_def put_out_def world0_def)
qed

lemma parse_world:
  "parse rets prog c w = (rc, c', w') \<Longrightarrow>
   calls w' = calls w \<and>
   (rc = exit_ok \<and> w' = w \<or>
    rc = exit_usage \<and> (stdout w' = stdout w \<or> stdout w' = stdout w @ usage_text prog))"
proof (induction rets arbitrary: c)
  case Nil
  then show ?case by simp
next
  case (Cons r rets)
  then show ?case
    by (cases r) (auto simp: put_err_def help_c_def put_out_def split: option.splits)
qed

lemma main_loop_world:
  "main_loop rets prog vs w = (r, vs', w') \<Longrightarrow>
   calls w' = calls w \<and>
   (r = None \<and> w' = w \<or>
    (r = Some 0 \<or> r = Some 1) \<and> (stdout w' = stdout w \<or> stdout w' = stdout w @ usage_text prog))"
proof (induction rets arbitrary: vs)
  case Nil
  then show ?case by simp
next
  case (Cons x rets)
  then show ?case
    by (cases x) (auto simp: put_err_def print_help_def put_out_def split: option.splits)
qed

lemma check_outcome:
  "check c prog w = (rc, w') \<Longrightarrow>
   calls w' = calls w \<and>
   (rc = exit_ok \<and> w' = w \<or>
    rc = exit_usage \<and> stdout w' = stdout w @ usage_text prog \<or>
    rc = exit_math \<and> stdout w' = stdout w)"
  by (auto simp: check_def put_err_def help_c_def put_out_def split: if_splits)

lemma calc_outcome:
  "calc E c w = (rc, c', w') \<Longrightarrow>
   stdout w' = stdout w \<and>
   (rc = exit_usage \<and> calls w' = calls w \<or> rc = exit_ok)"
  by (cases "c_op c") (auto simp: calc_def put_err_def log_call_def)

lemma print_result_outcome:
  "print_result r w = (rc, w') \<Longrightarrow> rc \<noteq> exit_usage"
  by (auto simp: print_result_def print_math_err_def split: if_splits)

lemma run_usage:
  assumes "fst (run E prog rets) = 1"
  shows "calls (snd (run E prog rets)) = [] \<and>
    (stdout (snd (run E prog rets)) = [] \<or> stdout (snd (run E prog rets)) = usage_text prog)"
proof -
  obtain rc c w where p: "parse rets prog context0 world0 = (rc, c, w)"
    by (cases "parse rets prog context0 world0") auto
  from parse_world [OF p] have pw: "calls w = [] \<and>
     (rc = exit_ok \<and> w = world0 \<or> rc = exit_usage \<and> (stdout w = [] \<or> stdout w = usage_text prog))"
    by (simp add: world0_def)
  show ?thesis
  proof (cases "rc = exit_ok")
    case False
    with p pw show ?thesis by (simp add: run_def)
  next
    case True
    with pw have w: "w = world0" by simp
    obtain rc1 w1 where k: "check c prog world0 = (rc1, w1)"
      by (cases "check c prog world0") auto
    from check_outcome [OF k] have kw: "calls w1 = [] \<and>
       (rc1 = exit_ok \<and> w1 = world0 \<or> rc1 = exit_usage \<and> stdout w1 = usage_text prog \<or>
        rc1 = exit_math \<and> stdout w1 = [])"
      by (simp add: world0_def)
    show ?thesis
    proof (cases "rc1 = exit_ok")
      case False
      with p True w k kw show ?thesis by (auto simp: run_def)
    next
      case rc1: True
      with kw have w1: "w1 = world0" by simp
      obtain rc2 c2 w2 where a: "calc E c world0 = (rc2, c2, w2)"
        by (cases "calc E c world0") auto
      from calc_outcome [OF a] have aw: "stdout w2 = [] \<and> (rc2 = exit_usage \<and> calls w2 = [] \<or> rc2 = exit_ok)"
        by (simp add: world0_def)
      show ?thesis
      proof (cases "rc2 = exit_ok")
        case False
        with p True w k rc1 w1 a aw show ?thesis by (auto simp: run_def)
      next
        case rc2: True
        obtain rc3 w3 where r: "print_result (c_r c2) w2 = (rc3, w3)"
          by (cases "print_result (c_r c2) w2") auto
        from print_result_outcome [OF r] have "exit_status rc3 \<noteq> 1"
          by (cases rc3) auto
        with assms p True w k rc1 w1 a rc2 r show ?thesis by (simp add: run_def)
      qed
    qed
  qed
qed


lemma run_operation_outcome:
  "run_operation E v a b w = (n, w') \<Longrightarrow>
   (n = 1 \<and> stdout w' = stdout w \<and> calls w' = calls w) \<or> n = 0 \<or> n = 2"
  by (cases v) (auto simp: run_operation_def print_math_error_def put_err_def put_out_def
      log_call_def Let_def split: if_splits)

lemma main_int_usage:
  assumes "fst (main_int E prog rets) = 1"
  shows "calls (snd (main_int E prog rets)) = [] \<and>
    (stdout (snd (main_int E prog rets)) = [] \<or>
     stdout (snd (main_int E prog rets)) = usage_text prog)"
proof -
  obtain r vs w where p: "main_loop rets prog main_vars0 world0 = (r, vs, w)"
    by (cases "main_loop rets prog main_vars0 world0") auto
  from main_loop_world [OF p] have pw: "calls w = [] \<and>
     (r = None \<and> w = world0 \<or>
      (r = Some 0 \<or> r = Some 1) \<and> (stdout w = [] \<or> stdout w = usage_text prog))"
    by (simp add: world0_def)
  show ?thesis
  proof (cases r)
    case (Some n)
    with p pw show ?thesis by (auto simp: main_int_def)
  next
    case None
    with pw have w: "w = world0" by simp
    show ?thesis
    proof (cases "\<not> v_have_op vs \<or> \<not> v_have_a vs \<or> (\<not> needs_b_sw (v_op vs) \<and> v_have_b vs) \<or>
        (needs_b_sw (v_op vs) \<and> \<not> v_have_b vs) \<or> (v_op vs = op_pow \<and> sint (v_b vs) < 0)")
      case True
      with assms p None w show ?thesis
        by (auto simp: main_int_def print_help_def put_err_def put_out_def world0_def)
    next
      case False
      then have m: "main_int E prog rets = run_operation E (v_op vs) (v_a vs) (v_b vs) world0"
        using p None w by (auto simp: main_int_def)
      obtain n w' where ro: "run_operation E (v_op vs) (v_a vs) (v_b vs) world0 = (n, w')"
        by (cases "run_operation E (v_op vs) (v_a vs) (v_b vs) world0") auto
      from run_operation_outcome [OF ro] assms m ro show ?thesis
        by (auto simp: world0_def)
    qed
  qed
qed

lemma print_result_calls: "calls (snd (print_result r w)) = calls w"
  by (simp add: print_result_def print_math_err_def put_err_def put_out_def)

lemma calc_called:
  "calc E c w = (exit_ok, c', w') \<Longrightarrow> \<exists>k. w' = log_call k w \<and> c_r c' = engine_result E k"
  by (cases "c_op c") (auto simp: calc_def)

lemma run_called:
  assumes "calls (snd (run E prog rets)) = [k]"
  shows "run E prog rets =
     (exit_status (fst (print_result (engine_result E k) (log_call k world0))),
      snd (print_result (engine_result E k) (log_call k world0)))"
proof -
  obtain rc c w where p: "parse rets prog context0 world0 = (rc, c, w)"
    by (cases "parse rets prog context0 world0") auto
  from parse_world [OF p] have pw: "calls w = [] \<and> (rc = exit_ok \<longrightarrow> w = world0)"
    by (auto simp: world0_def)
  have rc: "rc = exit_ok"
  proof (rule ccontr)
    assume "rc \<noteq> exit_ok"
    with p pw assms show False by (simp add: run_def)
  qed
  with pw have w: "w = world0" by simp
  obtain rc1 w1 where ch: "check c prog world0 = (rc1, w1)"
    by (cases "check c prog world0") auto
  from check_outcome [OF ch] have kw: "calls w1 = [] \<and> (rc1 = exit_ok \<longrightarrow> w1 = world0)"
    by (auto simp: world0_def)
  have rc1: "rc1 = exit_ok"
  proof (rule ccontr)
    assume "rc1 \<noteq> exit_ok"
    with p rc w ch kw assms show False by (simp add: run_def)
  qed
  with kw have w1: "w1 = world0" by simp
  obtain rc2 c2 w2 where a: "calc E c world0 = (rc2, c2, w2)"
    by (cases "calc E c world0") auto
  from calc_outcome [OF a] have aw: "rc2 = exit_usage \<and> calls w2 = [] \<or> rc2 = exit_ok"
    by (simp add: world0_def)
  have rc2: "rc2 = exit_ok"
  proof (rule ccontr)
    assume "rc2 \<noteq> exit_ok"
    with p rc w ch rc1 w1 a aw assms show False by (auto simp: run_def)
  qed
  from calc_called [of E c world0 c2 w2] a rc2 obtain k0 where
    k0: "w2 = log_call k0 world0" "c_r c2 = engine_result E k0"
    by auto
  have r: "run E prog rets =
     (exit_status (fst (print_result (engine_result E k0) (log_call k0 world0))),
      snd (print_result (engine_result E k0) (log_call k0 world0)))"
    using p rc w ch rc1 w1 a rc2 k0 by (simp add: run_def split: prod.splits)
  with assms have "calls (log_call k0 (world0 :: 64 word world)) = [k]"
    by (simp add: print_result_calls)
  then have "k0 = k" by (simp add: log_call_def world0_def)
  with r show ?thesis by simp
qed

lemma run_operation_called:
  assumes "calls (snd (run_operation E v a b w)) = calls w @ [k]"
  shows "run_operation E v a b w =
     (if is_div_call k \<and> r_error (engine_result E k) \<noteq> ml_ok
      then print_math_error ''div'' (r_error (engine_result E k)) (log_call k w)
      else (0, put_out (dec_int (sint (r_value (engine_result E k))) @ ''\<newline>'') (log_call k w)))"
  using assms
  by (cases v) (auto simp: run_operation_def print_math_error_def put_err_def put_out_def
      log_call_def Let_def split: if_splits)

lemma main_int_called:
  assumes "calls (snd (main_int E prog rets)) = [k]"
  shows "main_int E prog rets =
     (if is_div_call k \<and> r_error (engine_result E k) \<noteq> ml_ok
      then print_math_error ''div'' (r_error (engine_result E k)) (log_call k world0)
      else (0, put_out (dec_int (sint (r_value (engine_result E k))) @ ''\<newline>'') (log_call k world0)))"
proof -
  obtain r vs w where p: "main_loop rets prog main_vars0 world0 = (r, vs, w)"
    by (cases "main_loop rets prog main_vars0 world0") auto
  from main_loop_world [OF p] have pw: "calls w = [] \<and> (r = None \<longrightarrow> w = world0)"
    by (auto simp: world0_def)
  have r: "r = None"
  proof (rule ccontr)
    assume "r \<noteq> None"
    with p pw assms show False by (auto simp: main_int_def)
  qed
  with pw have w: "w = world0" by simp
  have "\<not> (\<not> v_have_op vs \<or> \<not> v_have_a vs \<or> (\<not> needs_b_sw (v_op vs) \<and> v_have_b vs) \<or>
        (needs_b_sw (v_op vs) \<and> \<not> v_have_b vs) \<or> (v_op vs = op_pow \<and> sint (v_b vs) < 0))"
  proof
    assume "\<not> v_have_op vs \<or> \<not> v_have_a vs \<or> (\<not> needs_b_sw (v_op vs) \<and> v_have_b vs) \<or>
        (needs_b_sw (v_op vs) \<and> \<not> v_have_b vs) \<or> (v_op vs = op_pow \<and> sint (v_b vs) < 0)"
    with assms p r w show False
      by (auto simp: main_int_def print_help_def put_err_def put_out_def world0_def
          split: if_splits)
  qed
  then have m: "main_int E prog rets = run_operation E (v_op vs) (v_a vs) (v_b vs) world0"
    using p r w by (auto simp: main_int_def)
  with assms have "calls (snd (run_operation E (v_op vs) (v_a vs) (v_b vs) world0)) =
      calls (world0 :: 32 word world) @ [k]"
    by (simp add: world0_def)
  from run_operation_called [OF this] m show ?thesis by simp
qed

lemma parse_last:
  "list_all accepted rets \<Longrightarrow>
   (\<exists>c'. parse rets prog c w = (exit_ok, c', w) \<and>
      (case last_o rets of None \<Rightarrow> c_op c' = c_op c \<and> c_have_op c' = c_have_op c
       | Some s \<Rightarrow> parse_op (Some s) = Some (c_op c') \<and> c_have_op c') \<and>
      (case last_a rets of None \<Rightarrow> c_a c' = c_a c \<and> c_have_a c' = c_have_a c
       | Some s \<Rightarrow> parse_i64 (Some s) = Some (c_a c') \<and> c_have_a c') \<and>
      (case last_b rets of None \<Rightarrow> c_b c' = c_b c \<and> c_have_b c' = c_have_b c
       | Some s \<Rightarrow> parse_i64 (Some s) = Some (c_b c') \<and> c_have_b c'))"
proof (induction rets arbitrary: c)
  case Nil
  then show ?case by simp
next
  case (Cons r rets)
  show ?case
  proof (cases r)
    case (Ret_o s)
    with Cons.prems obtain v where v: "parse_op (Some s) = Some v" and rest: "list_all accepted rets"
      by auto
    from Cons.IH [OF rest, of "c\<lparr>c_op := v, c_have_op := True\<rparr>"] Ret_o v
    show ?thesis by (auto split: option.splits)
  next
    case (Ret_a s)
    with Cons.prems obtain v where v: "parse_i64 (Some s) = Some v" and rest: "list_all accepted rets"
      by auto
    from Cons.IH [OF rest, of "c\<lparr>c_a := v, c_have_a := True\<rparr>"] Ret_a v
    show ?thesis by (auto split: option.splits)
  next
    case (Ret_b s)
    with Cons.prems obtain v where v: "parse_i64 (Some s) = Some v" and rest: "list_all accepted rets"
      by auto
    from Cons.IH [OF rest, of "c\<lparr>c_b := v, c_have_b := True\<rparr>"] Ret_b v
    show ?thesis by (auto split: option.splits)
  next
    case Ret_h
    with Cons.prems show ?thesis by simp
  next
    case Ret_other
    with Cons.prems show ?thesis by simp
  qed
qed

lemma main_loop_last:
  "list_all accepted_int rets \<Longrightarrow>
   (\<exists>vs'. main_loop rets prog vs w = (None, vs', w) \<and>
      (case last_o rets of None \<Rightarrow> v_op vs' = v_op vs \<and> v_have_op vs' = v_have_op vs
       | Some s \<Rightarrow> parse_operation (Some s) = Some (v_op vs') \<and> v_have_op vs') \<and>
      (case last_a rets of None \<Rightarrow> v_a vs' = v_a vs \<and> v_have_a vs' = v_have_a vs
       | Some s \<Rightarrow> parse_int (Some s) = Some (v_a vs') \<and> v_have_a vs') \<and>
      (case last_b rets of None \<Rightarrow> v_b vs' = v_b vs \<and> v_have_b vs' = v_have_b vs
       | Some s \<Rightarrow> parse_int (Some s) = Some (v_b vs') \<and> v_have_b vs'))"
proof (induction rets arbitrary: vs)
  case Nil
  then show ?case by simp
next
  case (Cons r rets)
  show ?case
  proof (cases r)
    case (Ret_o s)
    with Cons.prems obtain v where v: "parse_operation (Some s) = Some v" and rest: "list_all accepted_int rets"
      by auto
    from Cons.IH [OF rest, of "vs\<lparr>v_op := v, v_have_op := True\<rparr>"] Ret_o v
    show ?thesis by (auto split: option.splits)
  next
    case (Ret_a s)
    with Cons.prems obtain v where v: "parse_int (Some s) = Some v" and rest: "list_all accepted_int rets"
      by auto
    from Cons.IH [OF rest, of "vs\<lparr>v_a := v, v_have_a := True\<rparr>"] Ret_a v
    show ?thesis by (auto split: option.splits)
  next
    case (Ret_b s)
    with Cons.prems obtain v where v: "parse_int (Some s) = Some v" and rest: "list_all accepted_int rets"
      by auto
    from Cons.IH [OF rest, of "vs\<lparr>v_b := v, v_have_b := True\<rparr>"] Ret_b v
    show ?thesis by (auto split: option.splits)
  next
    case Ret_h
    with Cons.prems show ?thesis by simp
  next
    case Ret_other
    with Cons.prems show ?thesis by simp
  qed
qed

section \<open>Domain errors\<close>

lemma run_domain:
  assumes p: "parse rets prog context0 world0 = (exit_ok, c, w)"
    and h: "c_have_a c"
    and d: "(c_op c = op_pow \<and> c_have_b c \<and> sint (c_b c) < 0) \<or>
            (c_op c = op_fact \<and> \<not> c_have_b c \<and> sint (c_a c) < 0)"
  shows "run E prog rets =
     (2, \<lparr>stdout = [],
          stderr = (if c_op c = op_pow then ''Error: pow: domain error (b must be >= 0)\<newline>''
                    else ''Error: fact: domain error (a must be >= 0)\<newline>''),
          calls = []\<rparr>)"
proof -
  have w: "w = world0" using parse_ok_world [OF p] .
  from d have "c_op c \<noteq> op_none" by auto
  then have o: "c_have_op c" using parse0_have_op [OF p] by simp
  from d show ?thesis
  proof
    assume "c_op c = op_pow \<and> c_have_b c \<and> sint (c_b c) < 0"
    then show ?thesis using p h o w
      by (simp add: run_def check_def needs_b_def put_err_def world0_def)
  next
    assume "c_op c = op_fact \<and> \<not> c_have_b c \<and> sint (c_a c) < 0"
    then show ?thesis using p h o w
      by (simp add: run_def check_def needs_b_def put_err_def world0_def)
  qed
qed

lemma main_int_domain:
  assumes p: "main_loop rets prog main_vars0 world0 = (None, vs, w)"
    and h: "v_have_a vs"
    and d: "(v_op vs = op_pow \<and> v_have_b vs \<and> sint (v_b vs) < 0) \<or>
            (v_op vs = op_fact \<and> \<not> v_have_b vs \<and> sint (v_a vs) < 0)"
  shows "main_int E prog rets =
     (2, \<lparr>stdout = [],
          stderr = (if v_op vs = op_pow then ''Error: pow: domain error (b must be >= 0)\<newline>''
                    else ''Error: fact: domain error (a must be >= 0)\<newline>''),
          calls = []\<rparr>)"
proof -
  have w: "w = world0" using main_loop_ok_world [OF p] .
  from d have "v_op vs \<noteq> op_none" by auto
  then have o: "v_have_op vs" using main_loop0_have_op [OF p] by simp
  from d show ?thesis
  proof
    assume "v_op vs = op_pow \<and> v_have_b vs \<and> sint (v_b vs) < 0"
    then show ?thesis using p h o w
      by (simp add: main_int_def put_err_def world0_def)
  next
    assume "v_op vs = op_fact \<and> \<not> v_have_b vs \<and> sint (v_a vs) < 0"
    then show ?thesis using p h o w
      by (simp add: main_int_def run_operation_def put_err_def world0_def)
  qed
qed

text \<open>
  Claim C3. A request is structurally valid when the option loop ran to its end, \<^verbatim>\<open>-o\<close> and
  \<^verbatim>\<open>-a\<close> were given, and \<^verbatim>\<open>-b\<close> was given for \<^verbatim>\<open>pow\<close> and not for \<^verbatim>\<open>fact\<close>. For such a
  request with \<^verbatim>\<open>pow\<close> and \<open>b < 0\<close>, or \<^verbatim>\<open>fact\<close> and \<open>a < 0\<close>, both programs write the
  domain error to standard error and nothing to standard output, exit with the math code 2
  (the usage code is 1), and the trace of calls into mathlib is empty, whatever the engine.
\<close>

theorem domain_error_before_engine:
  "(parse rets prog context0 world0 = (exit_ok, c, w) \<and> c_have_a c \<and>
      ((c_op c = op_pow \<and> c_have_b c \<and> sint (c_b c) < 0) \<or>
       (c_op c = op_fact \<and> \<not> c_have_b c \<and> sint (c_a c) < 0))
    \<longrightarrow> run E prog rets =
          (exit_status exit_math,
           \<lparr>stdout = [],
            stderr = (if c_op c = op_pow then ''Error: pow: domain error (b must be >= 0)\<newline>''
                      else ''Error: fact: domain error (a must be >= 0)\<newline>''),
            calls = []\<rparr>)) \<and>
   (main_loop rets' prog' main_vars0 world0 = (None, vs, w') \<and> v_have_a vs \<and>
      ((v_op vs = op_pow \<and> v_have_b vs \<and> sint (v_b vs) < 0) \<or>
       (v_op vs = op_fact \<and> \<not> v_have_b vs \<and> sint (v_a vs) < 0))
    \<longrightarrow> main_int E' prog' rets' =
          (exit_status exit_math,
           \<lparr>stdout = [],
            stderr = (if v_op vs = op_pow then ''Error: pow: domain error (b must be >= 0)\<newline>''
                      else ''Error: fact: domain error (a must be >= 0)\<newline>''),
            calls = []\<rparr>)) \<and>
   exit_status exit_math \<noteq> exit_status exit_usage"
  using run_domain [of rets prog c w E] main_int_domain [of rets' prog' vs w' E']
  by simp

theorem domain_error_before_engine_witness:
  "run ref_engine ''calc'' [Ret_o ''pow'', Ret_a ''2'', Ret_b ''-1''] =
     (2, \<lparr>stdout = [], stderr = ''Error: pow: domain error (b must be >= 0)\<newline>'', calls = []\<rparr>) \<and>
   main_int ref_engine ''calc'' [Ret_o ''fact'', Ret_a ''-3''] =
     (2, \<lparr>stdout = [], stderr = ''Error: fact: domain error (a must be >= 0)\<newline>'', calls = []\<rparr>)"
proof -
  let ?c = "\<lparr>c_op = op_pow, c_have_op = True, c_a = 2, c_have_a = True, c_b = - 1,
      c_have_b = True, c_r = \<lparr>r_error = ml_ok, r_kind = kind_i64, r_value = 0\<rparr>\<rparr>"
  let ?vs = "\<lparr>v_a = - 3, v_b = 0, v_have_a = True, v_have_b = False, v_op = op_fact,
      v_have_op = True\<rparr>"
  have p: "parse [Ret_o ''pow'', Ret_a ''2'', Ret_b ''-1''] ''calc'' context0 world0 =
      (exit_ok, ?c, world0)"
    by (simp add: eval_defs)
  have q: "main_loop [Ret_o ''fact'', Ret_a ''-3''] ''calc'' main_vars0 world0 =
      (None, ?vs, world0)"
    by (simp add: eval_defs)
  show ?thesis
    using p q domain_error_before_engine
      [of "[Ret_o ''pow'', Ret_a ''2'', Ret_b ''-1'']" "''calc''" ?c world0 ref_engine
          "[Ret_o ''fact'', Ret_a ''-3'']" "''calc''" ?vs world0 ref_engine]
    by (simp add: eval_defs)
qed

section \<open>Division by zero\<close>

lemma run_div0:
  assumes p: "parse rets prog context0 world0 = (exit_ok, c, w)"
    and o: "c_op c = op_div" and h: "c_have_a c" "c_have_b c" and z: "c_b c = 0"
    and e: "r_error (ml_div E (c_a c) 0) = ml_div0"
  shows "run E prog rets =
     (2, \<lparr>stdout = [], stderr = ''Error: calc: division by zero\<newline>'',
          calls = [Call_div (c_a c) 0]\<rparr>)"
proof -
  have w: "w = world0" using parse_ok_world [OF p] .
  have ho: "c_have_op c" using parse0_have_op [OF p] o by simp
  have ch: "check c prog world0 = (exit_ok, world0)"
    using o h ho by (simp add: check_def needs_b_def)
  have ca: "calc E c world0 =
      (exit_ok, c\<lparr>c_r := ml_div E (c_a c) 0\<rparr>, log_call (Call_div (c_a c) 0) world0)"
    using o z by (simp add: calc_def)
  show ?thesis
    using p w ch ca e
    by (simp add: run_def print_result_def print_math_err_def put_err_def log_call_def world0_def)
qed

lemma main_int_div0:
  assumes p: "main_loop rets prog main_vars0 world0 = (None, vs, w)"
    and o: "v_op vs = op_div" and h: "v_have_a vs" "v_have_b vs" and z: "v_b vs = 0"
    and e: "r_error (ml_div E (v_a vs) 0) = ml_div0"
  shows "main_int E prog rets =
     (2, \<lparr>stdout = [], stderr = ''Error: div: division by zero\<newline>'',
          calls = [Call_div (v_a vs) 0]\<rparr>)"
proof -
  have w: "w = world0" using main_loop_ok_world [OF p] .
  have ho: "v_have_op vs" using main_loop0_have_op [OF p] o by simp
  show ?thesis
    using p w o h ho z e
    by (simp add: main_int_def run_operation_def print_math_error_def put_err_def log_call_def
        world0_def Let_def)
qed

text \<open>
  Claim C2. mathlib is not among the sources, so the engine is the reference engine,
  modelled from the spec, whose \<^verbatim>\<open>ml_div\<close> answers every zero divisor with the error
  \<^verbatim>\<open>div0\<close>. For a structurally valid \<^verbatim>\<open>div\<close> request whose \<open>b\<close> is 0, whatever \<open>a\<close>
  is, both programs write the line ending in \<^verbatim>\<open>division by zero\<close> to standard error
  (after \<^verbatim>\<open>Error: calc:\<close> in the first program, after \<^verbatim>\<open>Error: div:\<close> in the second),
  write nothing to standard output, so no quotient is printed, and exit with the math
  code 2.
\<close>

theorem div_by_zero_reported:
  "(parse rets prog context0 world0 = (exit_ok, c, w) \<and> c_op c = op_div \<and>
      c_have_a c \<and> c_have_b c \<and> c_b c = 0
    \<longrightarrow> run ref_engine prog rets =
          (exit_status exit_math,
           \<lparr>stdout = [], stderr = ''Error: calc: division by zero\<newline>'',
            calls = [Call_div (c_a c) 0]\<rparr>)) \<and>
   (main_loop rets' prog' main_vars0 world0 = (None, vs, w') \<and> v_op vs = op_div \<and>
      v_have_a vs \<and> v_have_b vs \<and> v_b vs = 0
    \<longrightarrow> main_int ref_engine prog' rets' =
          (exit_status exit_math,
           \<lparr>stdout = [], stderr = ''Error: div: division by zero\<newline>'',
            calls = [Call_div (v_a vs) 0]\<rparr>))"
proof -
  have e: "r_error (ml_div (ref_engine :: 64 word engine) (c_a c) 0) = ml_div0"
    by (simp add: ref_engine_def)
  have e': "r_error (ml_div (ref_engine :: 32 word engine) (v_a vs) 0) = ml_div0"
    by (simp add: ref_engine_def)
  from run_div0 [of rets prog c w ref_engine] main_int_div0 [of rets' prog' vs w' ref_engine] e e'
  show ?thesis by simp
qed

theorem div_by_zero_reported_witness:
  "run ref_engine ''calc'' [Ret_o ''div'', Ret_a ''7'', Ret_b ''0''] =
     (2, \<lparr>stdout = [], stderr = ''Error: calc: division by zero\<newline>'', calls = [Call_div 7 0]\<rparr>) \<and>
   main_int ref_engine ''calc'' [Ret_o ''div'', Ret_a ''-7'', Ret_b ''0''] =
     (2, \<lparr>stdout = [], stderr = ''Error: div: division by zero\<newline>'', calls = [Call_div (- 7) 0]\<rparr>)"
proof -
  let ?c = "\<lparr>c_op = op_div, c_have_op = True, c_a = 7, c_have_a = True, c_b = 0,
      c_have_b = True, c_r = \<lparr>r_error = ml_ok, r_kind = kind_i64, r_value = 0\<rparr>\<rparr>"
  let ?vs = "\<lparr>v_a = - 7, v_b = 0, v_have_a = True, v_have_b = True, v_op = op_div,
      v_have_op = True\<rparr>"
  have p: "parse [Ret_o ''div'', Ret_a ''7'', Ret_b ''0''] ''calc'' context0 world0 =
      (exit_ok, ?c, world0)"
    by (simp add: eval_defs)
  have q: "main_loop [Ret_o ''div'', Ret_a ''-7'', Ret_b ''0''] ''calc'' main_vars0 world0 =
      (None, ?vs, world0)"
    by (simp add: eval_defs)
  show ?thesis
    using p q div_by_zero_reported
      [of "[Ret_o ''div'', Ret_a ''7'', Ret_b ''0'']" "''calc''" ?c world0
          "[Ret_o ''div'', Ret_a ''-7'', Ret_b ''0'']" "''calc''" ?vs world0]
    by (simp add: eval_defs)
qed

section \<open>Operand arity\<close>

lemma run_arity:
  assumes p: "parse rets prog context0 world0 = (exit_ok, c, w)"
    and o: "c_op c \<noteq> op_none"
    and d: "(c_op c = op_fact \<and> c_have_b c) \<or> (needs_b (c_op c) \<and> \<not> c_have_b c)"
  shows "run E prog rets =
     (1, \<lparr>stdout = usage_text prog,
          stderr = (if \<not> c_have_a c then ''Error: missing -o or -a\<newline>''
                    else if c_op c = op_fact then ''Error: useless -b for this op\<newline>''
                    else ''Error: missing -b for this op\<newline>''),
          calls = []\<rparr>)"
proof -
  have w: "w = world0" using parse_ok_world [OF p] .
  have ho: "c_have_op c" using parse0_have_op [OF p] o by simp
  show ?thesis using p w ho d
    by (auto simp: run_def check_def needs_b_def put_err_def help_c_def put_out_def world0_def)
qed

lemma main_int_arity:
  assumes p: "main_loop rets prog main_vars0 world0 = (None, vs, w)"
    and o: "v_op vs \<noteq> op_none"
    and d: "(v_op vs = op_fact \<and> v_have_b vs) \<or> (needs_b_sw (v_op vs) \<and> \<not> v_have_b vs)"
  shows "main_int E prog rets =
     (1, \<lparr>stdout = usage_text prog,
          stderr = (if \<not> v_have_a vs then ''Error: missing required arguments\<newline>''
                    else if v_op vs = op_fact then ''Error: useless -b for this operation\<newline>''
                    else ''Error: missing -b for this operation\<newline>''),
          calls = []\<rparr>)"
proof -
  have w: "w = world0" using main_loop_ok_world [OF p] .
  have ho: "v_have_op vs" using main_loop0_have_op [OF p] o by simp
  show ?thesis using p w ho d
    by (auto simp: main_int_def put_err_def print_help_def put_out_def world0_def)
qed

text \<open>
  Claim C4, amended. After the option loop has run to its end with an operation: when
  \<^verbatim>\<open>-a\<close> was given, \<^verbatim>\<open>-b\<close> with \<^verbatim>\<open>fact\<close> is the useless-\<^verbatim>\<open>-b\<close> failure and a missing
  \<^verbatim>\<open>-b\<close> with \<^verbatim>\<open>add\<close>, \<^verbatim>\<open>sub\<close>, \<^verbatim>\<open>mul\<close>, \<^verbatim>\<open>div\<close> or \<^verbatim>\<open>pow\<close> is the missing-\<^verbatim>\<open>-b\<close>
  failure; when \<^verbatim>\<open>-a\<close> was not given, the failure reported is the missing \<^verbatim>\<open>-o\<close> or
  \<^verbatim>\<open>-a\<close> one, whatever \<^verbatim>\<open>-b\<close> is. Each exits with the usage code 1, prints its line on
  standard error and the usage text on standard output, and calls nothing of mathlib.
\<close>

theorem arity_failures:
  "(parse rets prog context0 world0 = (exit_ok, c, w) \<and> c_have_a c \<and> c_op c = op_fact \<and> c_have_b c
    \<longrightarrow> run E prog rets =
          (exit_status exit_usage,
           \<lparr>stdout = usage_text prog, stderr = ''Error: useless -b for this op\<newline>'', calls = []\<rparr>)) \<and>
   (parse rets prog context0 world0 = (exit_ok, c, w) \<and> c_have_a c \<and> needs_b (c_op c) \<and> \<not> c_have_b c
    \<longrightarrow> run E prog rets =
          (exit_status exit_usage,
           \<lparr>stdout = usage_text prog, stderr = ''Error: missing -b for this op\<newline>'', calls = []\<rparr>)) \<and>
   (parse rets prog context0 world0 = (exit_ok, c, w) \<and> \<not> c_have_a c
    \<longrightarrow> run E prog rets =
          (exit_status exit_usage,
           \<lparr>stdout = usage_text prog, stderr = ''Error: missing -o or -a\<newline>'', calls = []\<rparr>)) \<and>
   (main_loop rets' prog' main_vars0 world0 = (None, vs, w') \<and> v_have_a vs \<and> v_op vs = op_fact \<and>
      v_have_b vs
    \<longrightarrow> main_int E' prog' rets' =
          (exit_status exit_usage,
           \<lparr>stdout = usage_text prog', stderr = ''Error: useless -b for this operation\<newline>'',
            calls = []\<rparr>)) \<and>
   (main_loop rets' prog' main_vars0 world0 = (None, vs, w') \<and> v_have_a vs \<and>
      needs_b_sw (v_op vs) \<and> \<not> v_have_b vs
    \<longrightarrow> main_int E' prog' rets' =
          (exit_status exit_usage,
           \<lparr>stdout = usage_text prog', stderr = ''Error: missing -b for this operation\<newline>'',
            calls = []\<rparr>)) \<and>
   (main_loop rets' prog' main_vars0 world0 = (None, vs, w') \<and> \<not> v_have_a vs
    \<longrightarrow> main_int E' prog' rets' =
          (exit_status exit_usage,
           \<lparr>stdout = usage_text prog', stderr = ''Error: missing required arguments\<newline>'',
            calls = []\<rparr>))"
proof -
  have a1: "parse rets prog context0 world0 = (exit_ok, c, w) \<and> c_have_a c \<and> c_op c = op_fact \<and> c_have_b c
    \<longrightarrow> run E prog rets =
          (exit_status exit_usage,
           \<lparr>stdout = usage_text prog, stderr = ''Error: useless -b for this op\<newline>'', calls = []\<rparr>)"
    using run_arity [of rets prog c w E] by simp
  have a2: "parse rets prog context0 world0 = (exit_ok, c, w) \<and> c_have_a c \<and> needs_b (c_op c) \<and> \<not> c_have_b c
    \<longrightarrow> run E prog rets =
          (exit_status exit_usage,
           \<lparr>stdout = usage_text prog, stderr = ''Error: missing -b for this op\<newline>'', calls = []\<rparr>)"
    using run_arity [of rets prog c w E] by (auto simp: needs_b_def)
  have a3: "parse rets prog context0 world0 = (exit_ok, c, w) \<and> \<not> c_have_a c
    \<longrightarrow> run E prog rets =
          (exit_status exit_usage,
           \<lparr>stdout = usage_text prog, stderr = ''Error: missing -o or -a\<newline>'', calls = []\<rparr>)"
    using parse_ok_world [of rets prog context0 world0 c w]
    by (auto simp: run_def check_def put_err_def help_c_def put_out_def world0_def)
  have b1: "main_loop rets' prog' main_vars0 world0 = (None, vs, w') \<and> v_have_a vs \<and> v_op vs = op_fact \<and>
      v_have_b vs
    \<longrightarrow> main_int E' prog' rets' =
          (exit_status exit_usage,
           \<lparr>stdout = usage_text prog', stderr = ''Error: useless -b for this operation\<newline>'',
            calls = []\<rparr>)"
    using main_int_arity [of rets' prog' vs w' E'] by simp
  have b2: "main_loop rets' prog' main_vars0 world0 = (None, vs, w') \<and> v_have_a vs \<and>
      needs_b_sw (v_op vs) \<and> \<not> v_have_b vs
    \<longrightarrow> main_int E' prog' rets' =
          (exit_status exit_usage,
           \<lparr>stdout = usage_text prog', stderr = ''Error: missing -b for this operation\<newline>'',
            calls = []\<rparr>)"
    using main_int_arity [of rets' prog' vs w' E'] by (cases "v_op vs") auto
  have b3: "main_loop rets' prog' main_vars0 world0 = (None, vs, w') \<and> \<not> v_have_a vs
    \<longrightarrow> main_int E' prog' rets' =
          (exit_status exit_usage,
           \<lparr>stdout = usage_text prog', stderr = ''Error: missing required arguments\<newline>'',
            calls = []\<rparr>)"
    using main_loop_ok_world [of rets' prog' main_vars0 world0 vs w']
    by (auto simp: main_int_def put_err_def print_help_def put_out_def world0_def)
  from a1 a2 a3 b1 b2 b3 show ?thesis by blast
qed

theorem arity_failures_witness:
  "run ref_engine ''calc'' [Ret_o ''fact'', Ret_a ''5'', Ret_b ''3''] =
     (1, \<lparr>stdout = usage_text ''calc'', stderr = ''Error: useless -b for this op\<newline>'', calls = []\<rparr>) \<and>
   main_int ref_engine ''calc'' [Ret_o ''add'', Ret_a ''2''] =
     (1, \<lparr>stdout = usage_text ''calc'', stderr = ''Error: missing -b for this operation\<newline>'',
          calls = []\<rparr>)"
proof -
  let ?c = "\<lparr>c_op = op_fact, c_have_op = True, c_a = 5, c_have_a = True, c_b = 3,
      c_have_b = True, c_r = \<lparr>r_error = ml_ok, r_kind = kind_i64, r_value = 0\<rparr>\<rparr>"
  let ?vs = "\<lparr>v_a = 2, v_b = 0, v_have_a = True, v_have_b = False, v_op = op_add,
      v_have_op = True\<rparr>"
  have p: "parse [Ret_o ''fact'', Ret_a ''5'', Ret_b ''3''] ''calc'' context0 world0 =
      (exit_ok, ?c, world0)"
    by (simp add: eval_defs)
  have q: "main_loop [Ret_o ''add'', Ret_a ''2''] ''calc'' main_vars0 world0 = (None, ?vs, world0)"
    by (simp add: eval_defs)
  show ?thesis
    using p q arity_failures
      [of "[Ret_o ''fact'', Ret_a ''5'', Ret_b ''3'']" "''calc''" ?c world0 ref_engine
          "[Ret_o ''add'', Ret_a ''2'']" "''calc''" ?vs world0 ref_engine]
    by simp
qed

text \<open>The claim as stated fails for \<^verbatim>\<open>-o fact -b 3\<close>: \<^verbatim>\<open>-b\<close> is given to \<^verbatim>\<open>fact\<close>, and the
  failure reported is the missing \<^verbatim>\<open>-a\<close>, the first test of \<^verbatim>\<open>check\<close>.\<close>

theorem arity_failures_counterexample:
  "run ref_engine ''calc'' [Ret_o ''fact'', Ret_b ''3''] =
     (1, \<lparr>stdout = usage_text ''calc'', stderr = ''Error: missing -o or -a\<newline>'', calls = []\<rparr>) \<and>
   ''Error: missing -o or -a\<newline>'' \<noteq> ''Error: useless -b for this op\<newline>''"
  by (simp add: eval_defs)

section \<open>The casts to unsigned\<close>

lemma word_of_int_mod_len: "(word_of_int (k mod 2 ^ LENGTH('a)) :: 'a::len word) = word_of_int k"
  by (simp add: word_of_int_eq_iff take_bit_eq_mod)

lemma to_uint64_id: "to_uint64 x = x"
  using word_of_int_mod_len [where 'a = 64, of "sint x"] by (simp add: to_uint64_def)

lemma to_uint_id: "to_uint x = x"
  using word_of_int_mod_len [where 'a = 32, of "sint x"] by (simp add: to_uint_def)

lemma uint_nonneg_sint: "0 \<le> sint (x :: 'a::len word) \<Longrightarrow> uint x = sint x"
proof -
  assume a: "0 \<le> sint x"
  have "sint x < 2 ^ (LENGTH('a) - 1)" by (rule sint_lt)
  also have "\<dots> \<le> (2::int) ^ LENGTH('a)" by (rule power_increasing) auto
  finally have "sint x < 2 ^ LENGTH('a)" .
  with a show ?thesis by (simp add: uint_sint take_bit_int_eq_self)
qed

lemma print_result_calls_eq:
  "print_result r w = (rc, w') \<Longrightarrow> calls w' = calls w"
  using print_result_calls [of r w] by simp

lemma run_trace:
  assumes p: "parse rets prog context0 world0 = (rc, c, w)"
    and k: "calls (snd (run E prog rets)) = [k]"
  shows "rc = exit_ok \<and> check c prog world0 = (exit_ok, world0) \<and>
     (\<exists>c'. calc E c world0 = (exit_ok, c', log_call k world0))"
proof -
  from parse_world [OF p] have pw: "calls w = [] \<and> (rc = exit_ok \<longrightarrow> w = world0)"
    by (auto simp: world0_def)
  have rc: "rc = exit_ok"
  proof (rule ccontr)
    assume "rc \<noteq> exit_ok"
    with p pw k show False by (simp add: run_def)
  qed
  with pw have w: "w = world0" by simp
  obtain rc1 w1 where ch: "check c prog world0 = (rc1, w1)"
    by (cases "check c prog world0") auto
  from check_outcome [OF ch] have kw: "calls w1 = [] \<and> (rc1 = exit_ok \<longrightarrow> w1 = world0)"
    by (auto simp: world0_def)
  have rc1: "rc1 = exit_ok"
  proof (rule ccontr)
    assume "rc1 \<noteq> exit_ok"
    with p rc w ch kw k show False by (simp add: run_def)
  qed
  with kw have w1: "w1 = world0" by simp
  obtain rc2 c2 w2 where a: "calc E c world0 = (rc2, c2, w2)"
    by (cases "calc E c world0") auto
  from calc_outcome [OF a] have aw: "rc2 = exit_usage \<and> calls w2 = [] \<or> rc2 = exit_ok"
    by (simp add: world0_def)
  have rc2: "rc2 = exit_ok"
  proof (rule ccontr)
    assume "rc2 \<noteq> exit_ok"
    with p rc w ch rc1 w1 a aw k show False by (auto simp: run_def)
  qed
  from calc_called [of E c world0 c2 w2] a rc2 obtain k0 where
    k0: "w2 = log_call k0 world0" "c_r c2 = engine_result E k0"
    by auto
  have "calls (snd (run E prog rets)) = calls w2"
    using p rc w ch rc1 w1 a rc2
    by (auto simp: run_def print_result_calls_eq split: prod.splits)
  with k k0 have "k0 = k" by (simp add: log_call_def world0_def)
  with rc ch rc1 w1 a rc2 k0 show ?thesis by simp
qed

lemma check_ok_pow: "check c prog w = (exit_ok, w1) \<Longrightarrow> c_op c = op_pow \<Longrightarrow> 0 \<le> sint (c_b c)"
  by (auto simp: check_def split: if_splits)

lemma check_ok_fact: "check c prog w = (exit_ok, w1) \<Longrightarrow> c_op c = op_fact \<Longrightarrow> 0 \<le> sint (c_a c)"
  by (auto simp: check_def split: if_splits)

lemma calc_pow_call:
  "calc E c w = (rc, c', w') \<Longrightarrow> calls w' = calls w @ [Call_pow x n] \<Longrightarrow>
   c_op c = op_pow \<and> x = c_a c \<and> n = to_uint64 (c_b c)"
  by (cases "c_op c") (auto simp: calc_def log_call_def put_err_def)

lemma calc_fact_call:
  "calc E c w = (rc, c', w') \<Longrightarrow> calls w' = calls w @ [Call_fact n] \<Longrightarrow>
   c_op c = op_fact \<and> n = to_uint64 (c_a c)"
  by (cases "c_op c") (auto simp: calc_def log_call_def put_err_def)

text \<open>
  Claim C10. In the first program, whenever \<^verbatim>\<open>calc\<close> runs after \<^verbatim>\<open>check\<close> returned
  \<^verbatim>\<open>ok\<close> and calls \<^verbatim>\<open>ml_pow\<close> or \<^verbatim>\<open>ml_fact\<close>, the unsigned argument it passes, read as
  an unsigned number, is the user's signed operand (\<open>b\<close> for \<^verbatim>\<open>pow\<close>, \<open>a\<close> for \<^verbatim>\<open>fact\<close>):
  \<^verbatim>\<open>check\<close> has turned the negative ones away. The same holds of every call to
  \<^verbatim>\<open>ml_pow\<close> or \<^verbatim>\<open>ml_fact\<close> in the trace of a whole run, for the operands the option
  loop stored.
\<close>

theorem unsigned_cast_keeps_value:
  "(check c prog w = (exit_ok, w1) \<and> calc E c w1 = (rc, c', w2) \<and>
      calls w2 = calls w1 @ [Call_pow x n]
    \<longrightarrow> c_op c = op_pow \<and> x = c_a c \<and> uint n = sint (c_b c)) \<and>
   (check c prog w = (exit_ok, w1) \<and> calc E c w1 = (rc, c', w2) \<and>
      calls w2 = calls w1 @ [Call_fact m]
    \<longrightarrow> c_op c = op_fact \<and> uint m = sint (c_a c)) \<and>
   (parse rets prog' context0 world0 = (rc0, c0, w0) \<and>
      calls (snd (run E prog' rets)) = [Call_pow x n]
    \<longrightarrow> x = c_a c0 \<and> uint n = sint (c_b c0)) \<and>
   (parse rets prog' context0 world0 = (rc0, c0, w0) \<and>
      calls (snd (run E prog' rets)) = [Call_fact m]
    \<longrightarrow> uint m = sint (c_a c0))"
proof -
  have a1: "check c prog w = (exit_ok, w1) \<and> calc E c w1 = (rc, c', w2) \<and>
      calls w2 = calls w1 @ [Call_pow x n]
    \<longrightarrow> c_op c = op_pow \<and> x = c_a c \<and> uint n = sint (c_b c)"
    using calc_pow_call [of E c w1 rc c' w2 x n] check_ok_pow [of c prog w w1]
    by (auto simp: to_uint64_id uint_nonneg_sint)
  have a2: "check c prog w = (exit_ok, w1) \<and> calc E c w1 = (rc, c', w2) \<and>
      calls w2 = calls w1 @ [Call_fact m]
    \<longrightarrow> c_op c = op_fact \<and> uint m = sint (c_a c)"
    using calc_fact_call [of E c w1 rc c' w2 m] check_ok_fact [of c prog w w1]
    by (auto simp: to_uint64_id uint_nonneg_sint)
  have a3: "parse rets prog' context0 world0 = (rc0, c0, w0) \<and>
      calls (snd (run E prog' rets)) = [Call_pow x n]
    \<longrightarrow> x = c_a c0 \<and> uint n = sint (c_b c0)"
  proof
    assume h: "parse rets prog' context0 world0 = (rc0, c0, w0) \<and>
      calls (snd (run E prog' rets)) = [Call_pow x n]"
    from run_trace [of rets prog' rc0 c0 w0 E "Call_pow x n"] h obtain c1 where
      t: "check c0 prog' world0 = (exit_ok, world0)"
         "calc E c0 world0 = (exit_ok, c1, log_call (Call_pow x n) world0)"
      by auto
    have "calls (log_call (Call_pow x n) (world0 :: 64 word world)) = calls world0 @ [Call_pow x n]"
      by (simp add: log_call_def)
    from calc_pow_call [OF t(2) this] check_ok_pow [OF t(1)]
    show "x = c_a c0 \<and> uint n = sint (c_b c0)"
      by (auto simp: to_uint64_id uint_nonneg_sint)
  qed
  have a4: "parse rets prog' context0 world0 = (rc0, c0, w0) \<and>
      calls (snd (run E prog' rets)) = [Call_fact m]
    \<longrightarrow> uint m = sint (c_a c0)"
  proof
    assume h: "parse rets prog' context0 world0 = (rc0, c0, w0) \<and>
      calls (snd (run E prog' rets)) = [Call_fact m]"
    from run_trace [of rets prog' rc0 c0 w0 E "Call_fact m"] h obtain c1 where
      t: "check c0 prog' world0 = (exit_ok, world0)"
         "calc E c0 world0 = (exit_ok, c1, log_call (Call_fact m) world0)"
      by auto
    have "calls (log_call (Call_fact m) (world0 :: 64 word world)) = calls world0 @ [Call_fact m]"
      by (simp add: log_call_def)
    from calc_fact_call [OF t(2) this] check_ok_fact [OF t(1)]
    show "uint m = sint (c_a c0)"
      by (auto simp: to_uint64_id uint_nonneg_sint)
  qed
  from a1 a2 a3 a4 show ?thesis by blast
qed

theorem unsigned_cast_keeps_value_witness:
  "calls (snd (run ref_engine ''calc'' [Ret_o ''pow'', Ret_a ''-2'', Ret_b ''10''])) =
     [Call_pow (- 2) 10] \<and>
   uint (10 :: 64 word) = sint (10 :: 64 word) \<and>
   calls (snd (run ref_engine ''calc'' [Ret_o ''fact'', Ret_a ''5''])) = [Call_fact 5] \<and>
   uint (5 :: 64 word) = sint (5 :: 64 word)"
proof -
  let ?c = "\<lparr>c_op = op_pow, c_have_op = True, c_a = - 2, c_have_a = True, c_b = 10,
      c_have_b = True, c_r = \<lparr>r_error = ml_ok, r_kind = kind_i64, r_value = 0\<rparr>\<rparr>"
  let ?d = "\<lparr>c_op = op_fact, c_have_op = True, c_a = 5, c_have_a = True, c_b = 0,
      c_have_b = False, c_r = \<lparr>r_error = ml_ok, r_kind = kind_i64, r_value = 0\<rparr>\<rparr>"
  have p: "parse [Ret_o ''pow'', Ret_a ''-2'', Ret_b ''10''] ''calc'' context0 world0 =
      (exit_ok, ?c, world0)"
    by (simp add: eval_defs)
  have q: "parse [Ret_o ''fact'', Ret_a ''5''] ''calc'' context0 world0 = (exit_ok, ?d, world0)"
    by (simp add: eval_defs)
  have k1: "calls (snd (run ref_engine ''calc'' [Ret_o ''pow'', Ret_a ''-2'', Ret_b ''10''])) =
     [Call_pow (- 2) 10]"
    by (simp add: eval_defs)
  have k2: "calls (snd (run ref_engine ''calc'' [Ret_o ''fact'', Ret_a ''5''])) = [Call_fact 5]"
    by (simp add: eval_defs fact_numeral)
  from unsigned_cast_keeps_value
    [of ?c "''calc''" world0 world0 ref_engine exit_ok ?c world0 "- 2" 10 5
        "[Ret_o ''pow'', Ret_a ''-2'', Ret_b ''10'']" "''calc''" exit_ok ?c world0]
    p k1
  have r1: "uint (10 :: 64 word) = sint (10 :: 64 word)" by simp
  have r2: "uint (5 :: 64 word) = sint (5 :: 64 word)" by simp
  from k1 k2 r1 r2 show ?thesis by simp
qed

section \<open>The help flag\<close>

text \<open>
  Claim C5, amended. When \<^verbatim>\<open>getopt_long\<close> returns \<^verbatim>\<open>-h\<close> and every return before it was
  an accepted \<^verbatim>\<open>-o\<close>, \<^verbatim>\<open>-a\<close> or \<^verbatim>\<open>-b\<close>, the program prints the usage text on standard
  output and returns at once, whatever follows on the command line: no arity check, no
  domain check, no call into mathlib. The second program exits with 0, the first with the
  usage code 1. When an earlier return is a rejected \<^verbatim>\<open>-o\<close>, \<^verbatim>\<open>-a\<close> or \<^verbatim>\<open>-b\<close>, or an
  unknown option, the program has already returned the usage code 1 there, and a later
  \<^verbatim>\<open>-h\<close> is never read.
\<close>

theorem help_returns_at_once:
  "(list_all accepted pre \<longrightarrow>
      run E prog (pre @ Ret_h # post) =
        (exit_status exit_usage, \<lparr>stdout = usage_text prog, stderr = [], calls = []\<rparr>)) \<and>
   (list_all accepted_int pre \<longrightarrow>
      main_int E' prog (pre @ Ret_h # post) =
        (exit_status exit_ok, \<lparr>stdout = usage_text prog, stderr = [], calls = []\<rparr>)) \<and>
   (list_all accepted pre \<and> is_operand_flag bad \<and> \<not> accepted bad \<longrightarrow>
      run E prog (pre @ bad # post) =
        (exit_status exit_usage, \<lparr>stdout = [], stderr = rejection_line bad, calls = []\<rparr>)) \<and>
   (list_all accepted_int pre \<and> is_operand_flag bad \<and> \<not> accepted_int bad \<longrightarrow>
      main_int E' prog (pre @ bad # post) =
        (exit_status exit_usage, \<lparr>stdout = [], stderr = rejection_line bad, calls = []\<rparr>)) \<and>
   (list_all accepted pre \<longrightarrow>
      run E prog (pre @ Ret_other # post) =
        (exit_status exit_usage, \<lparr>stdout = usage_text prog, stderr = [], calls = []\<rparr>)) \<and>
   (list_all accepted_int pre \<longrightarrow>
      main_int E' prog (pre @ Ret_other # post) =
        (exit_status exit_usage, \<lparr>stdout = usage_text prog, stderr = [], calls = []\<rparr>))"
proof -
  have a1: "list_all accepted pre \<longrightarrow>
      run E prog (pre @ Ret_h # post) =
        (exit_status exit_usage, \<lparr>stdout = usage_text prog, stderr = [], calls = []\<rparr>)"
    using run_rejected [of pre Ret_h E prog post] by simp
  have a2: "list_all accepted_int pre \<longrightarrow>
      main_int E' prog (pre @ Ret_h # post) =
        (exit_status exit_ok, \<lparr>stdout = usage_text prog, stderr = [], calls = []\<rparr>)"
    using main_int_rejected [of pre Ret_h E' prog post] by simp
  have a3: "list_all accepted pre \<and> is_operand_flag bad \<and> \<not> accepted bad \<longrightarrow>
      run E prog (pre @ bad # post) =
        (exit_status exit_usage, \<lparr>stdout = [], stderr = rejection_line bad, calls = []\<rparr>)"
    using run_rejected [of pre bad E prog post] by simp
  have a4: "list_all accepted_int pre \<and> is_operand_flag bad \<and> \<not> accepted_int bad \<longrightarrow>
      main_int E' prog (pre @ bad # post) =
        (exit_status exit_usage, \<lparr>stdout = [], stderr = rejection_line bad, calls = []\<rparr>)"
    using main_int_rejected [of pre bad E' prog post] by auto
  have a5: "list_all accepted pre \<longrightarrow>
      run E prog (pre @ Ret_other # post) =
        (exit_status exit_usage, \<lparr>stdout = usage_text prog, stderr = [], calls = []\<rparr>)"
    using run_rejected [of pre Ret_other E prog post] by simp
  have a6: "list_all accepted_int pre \<longrightarrow>
      main_int E' prog (pre @ Ret_other # post) =
        (exit_status exit_usage, \<lparr>stdout = usage_text prog, stderr = [], calls = []\<rparr>)"
    using main_int_rejected [of pre Ret_other E' prog post] by simp
  from a1 a2 a3 a4 a5 a6 show ?thesis by blast
qed

theorem help_returns_at_once_witness:
  "run ref_engine ''calc'' ([Ret_o ''add'', Ret_a ''2''] @ Ret_h # [Ret_b ''x'']) =
     (1, \<lparr>stdout = usage_text ''calc'', stderr = [], calls = []\<rparr>) \<and>
   main_int ref_engine ''calc'' ([Ret_o ''add'', Ret_a ''2''] @ Ret_h # [Ret_b ''x'']) =
     (0, \<lparr>stdout = usage_text ''calc'', stderr = [], calls = []\<rparr>)"
proof -
  have p: "list_all accepted [Ret_o ''add'', Ret_a ''2'']"
    by (simp add: eval_defs)
  have q: "list_all accepted_int [Ret_o ''add'', Ret_a ''2'']"
    by (simp add: eval_defs)
  from help_returns_at_once
    [of "[Ret_o ''add'', Ret_a ''2'']" ref_engine "''calc''" "[Ret_b ''x'']" ref_engine "Ret_b ''x''"]
    p q
  show ?thesis by simp
qed

text \<open>The claim as stated fails twice: the first program exits with 1 on \<^verbatim>\<open>-h\<close> alone,
  and \<^verbatim>\<open>-a x -h\<close> ends the second program at the rejected \<^verbatim>\<open>-a\<close>, with the usage code 1
  and no usage text.\<close>

theorem help_returns_at_once_counterexample:
  "run ref_engine ''calc'' [Ret_h] =
     (1, \<lparr>stdout = usage_text ''calc'', stderr = [], calls = []\<rparr>) \<and>
   main_int ref_engine ''calc'' [Ret_a ''x'', Ret_h] =
     (1, \<lparr>stdout = [], stderr = rejection_line (Ret_a ''x''), calls = []\<rparr>)"
  by (simp add: eval_defs)

section \<open>Usage errors come before arithmetic\<close>

text \<open>
  Claim C8, amended. For every run of either program that exits with the usage code 1, the
  trace of calls into mathlib is empty, and standard output holds either nothing or the
  usage text alone (which \<^verbatim>\<open>help\<close> and \<^verbatim>\<open>print_help\<close> print with \<^verbatim>\<open>std::printf\<close>): no
  result is printed.
\<close>

theorem usage_error_before_arithmetic:
  "(fst (run E prog rets) = exit_status exit_usage \<longrightarrow>
      calls (snd (run E prog rets)) = [] \<and>
      (stdout (snd (run E prog rets)) = [] \<or> stdout (snd (run E prog rets)) = usage_text prog)) \<and>
   (fst (main_int E' prog rets) = exit_status exit_usage \<longrightarrow>
      calls (snd (main_int E' prog rets)) = [] \<and>
      (stdout (snd (main_int E' prog rets)) = [] \<or>
       stdout (snd (main_int E' prog rets)) = usage_text prog))"
  using run_usage [of E prog rets] main_int_usage [of E' prog rets]
  by simp

theorem usage_error_before_arithmetic_witness:
  "fst (run ref_engine ''calc'' [Ret_o ''xor'']) = 1 \<and>
   calls (snd (run ref_engine ''calc'' [Ret_o ''xor''])) = [] \<and>
   stdout (snd (run ref_engine ''calc'' [Ret_o ''xor''])) = [] \<and>
   fst (main_int ref_engine ''calc'' [Ret_o ''add'', Ret_a ''1'']) = 1 \<and>
   calls (snd (main_int ref_engine ''calc'' [Ret_o ''add'', Ret_a ''1''])) = [] \<and>
   stdout (snd (main_int ref_engine ''calc'' [Ret_o ''add'', Ret_a ''1''])) = usage_text ''calc''"
proof -
  have p: "fst (run ref_engine ''calc'' [Ret_o ''xor'']) = exit_status exit_usage"
    by (simp add: eval_defs)
  have q: "fst (main_int ref_engine ''calc'' [Ret_o ''add'', Ret_a ''1'']) = exit_status exit_usage"
    by (simp add: eval_defs)
  have o1: "stdout (snd (run ref_engine ''calc'' [Ret_o ''xor''])) = []"
    by (simp add: eval_defs)
  have o2: "stdout (snd (main_int ref_engine ''calc'' [Ret_o ''add'', Ret_a ''1''])) = usage_text ''calc''"
    by (simp add: eval_defs)
  from usage_error_before_arithmetic
    [of ref_engine "''calc''" "[Ret_o ''xor'']" ref_engine]
    p
  have c1: "calls (snd (run ref_engine ''calc'' [Ret_o ''xor''])) = []" by simp
  have c2: "calls (snd (main_int ref_engine ''calc'' [Ret_o ''add'', Ret_a ''1''])) = []"
    by (simp add: eval_defs)
  from p q o1 o2 c1 c2 show ?thesis by simp
qed

text \<open>The claim as stated fails on the empty command line: the usage exit comes with the
  usage text on standard output.\<close>

theorem usage_error_before_arithmetic_counterexample:
  "fst (run ref_engine ''calc'' []) = 1 \<and>
   stdout (snd (run ref_engine ''calc'' [])) = usage_text ''calc'' \<and>
   usage_text ''calc'' \<noteq> []"
  by (simp add: eval_defs usage_text_def)

section \<open>Repeated flags\<close>

text \<open>
  Claim C9. When every return of \<^verbatim>\<open>getopt_long\<close> is an \<^verbatim>\<open>-o\<close>, \<^verbatim>\<open>-a\<close> or \<^verbatim>\<open>-b\<close> whose
  argument is accepted, the loop runs to its end without printing, and the operation and the
  operands it leaves are those of the last \<^verbatim>\<open>-o\<close>, the last \<^verbatim>\<open>-a\<close> and the last \<^verbatim>\<open>-b\<close> (a
  flag that never occurs keeps its initial value and its \<^verbatim>\<open>have\<close> flag). The first
  \<^verbatim>\<open>-o\<close>, \<^verbatim>\<open>-a\<close> or \<^verbatim>\<open>-b\<close> that is rejected, after accepted ones, ends the program with
  the usage code 1 and its error line, whatever comes later. Both programs.
\<close>

theorem last_occurrence_wins:
  "(list_all accepted rets \<longrightarrow>
      (\<exists>c'. parse rets prog c w = (exit_ok, c', w) \<and>
         (case last_o rets of None \<Rightarrow> c_op c' = c_op c \<and> c_have_op c' = c_have_op c
          | Some s \<Rightarrow> parse_op (Some s) = Some (c_op c') \<and> c_have_op c') \<and>
         (case last_a rets of None \<Rightarrow> c_a c' = c_a c \<and> c_have_a c' = c_have_a c
          | Some s \<Rightarrow> parse_i64 (Some s) = Some (c_a c') \<and> c_have_a c') \<and>
         (case last_b rets of None \<Rightarrow> c_b c' = c_b c \<and> c_have_b c' = c_have_b c
          | Some s \<Rightarrow> parse_i64 (Some s) = Some (c_b c') \<and> c_have_b c'))) \<and>
   (list_all accepted_int rets \<longrightarrow>
      (\<exists>vs'. main_loop rets prog vs w' = (None, vs', w') \<and>
         (case last_o rets of None \<Rightarrow> v_op vs' = v_op vs \<and> v_have_op vs' = v_have_op vs
          | Some s \<Rightarrow> parse_operation (Some s) = Some (v_op vs') \<and> v_have_op vs') \<and>
         (case last_a rets of None \<Rightarrow> v_a vs' = v_a vs \<and> v_have_a vs' = v_have_a vs
          | Some s \<Rightarrow> parse_int (Some s) = Some (v_a vs') \<and> v_have_a vs') \<and>
         (case last_b rets of None \<Rightarrow> v_b vs' = v_b vs \<and> v_have_b vs' = v_have_b vs
          | Some s \<Rightarrow> parse_int (Some s) = Some (v_b vs') \<and> v_have_b vs'))) \<and>
   (list_all accepted pre \<and> is_operand_flag bad \<and> \<not> accepted bad \<longrightarrow>
      run E prog (pre @ bad # post) =
        (exit_status exit_usage, \<lparr>stdout = [], stderr = rejection_line bad, calls = []\<rparr>)) \<and>
   (list_all accepted_int pre \<and> is_operand_flag bad \<and> \<not> accepted_int bad \<longrightarrow>
      main_int E' prog (pre @ bad # post) =
        (exit_status exit_usage, \<lparr>stdout = [], stderr = rejection_line bad, calls = []\<rparr>))"
proof -
  have a3: "list_all accepted pre \<and> is_operand_flag bad \<and> \<not> accepted bad \<longrightarrow>
      run E prog (pre @ bad # post) =
        (exit_status exit_usage, \<lparr>stdout = [], stderr = rejection_line bad, calls = []\<rparr>)"
    using run_rejected [of pre bad E prog post] by simp
  have a4: "list_all accepted_int pre \<and> is_operand_flag bad \<and> \<not> accepted_int bad \<longrightarrow>
      main_int E' prog (pre @ bad # post) =
        (exit_status exit_usage, \<lparr>stdout = [], stderr = rejection_line bad, calls = []\<rparr>)"
    using main_int_rejected [of pre bad E' prog post] by auto
  from parse_last [of rets prog c w] main_loop_last [of rets prog vs w'] a3 a4
  show ?thesis by blast
qed

theorem last_occurrence_wins_witness:
  "parse [Ret_a ''1'', Ret_o ''add'', Ret_b ''3'', Ret_a ''2'', Ret_o ''mul'', Ret_b ''4'']
      ''calc'' context0 world0 =
     (exit_ok,
      \<lparr>c_op = op_mul, c_have_op = True, c_a = 2, c_have_a = True, c_b = 4, c_have_b = True,
       c_r = \<lparr>r_error = ml_ok, r_kind = kind_i64, r_value = 0\<rparr>\<rparr>, world0) \<and>
   last_o [Ret_a ''1'', Ret_o ''add'', Ret_b ''3'', Ret_a ''2'', Ret_o ''mul'', Ret_b ''4''] =
     Some ''mul'' \<and>
   run ref_engine ''calc'' ([Ret_o ''add'', Ret_a ''1''] @ Ret_a ''1x'' # [Ret_a ''2'', Ret_b ''3'']) =
     (1, \<lparr>stdout = [], stderr = rejection_line (Ret_a ''1x''), calls = []\<rparr>) \<and>
   main_int ref_engine ''calc'' ([Ret_o ''add'', Ret_a ''1''] @ Ret_a ''1x'' # [Ret_a ''2'', Ret_b ''3'']) =
     (1, \<lparr>stdout = [], stderr = rejection_line (Ret_a ''1x''), calls = []\<rparr>)"
proof -
  have p: "list_all accepted [Ret_a ''1'', Ret_o ''add'', Ret_b ''3'', Ret_a ''2'', Ret_o ''mul'', Ret_b ''4'']"
    by (simp add: eval_defs)
  have q: "list_all accepted [Ret_o ''add'', Ret_a ''1''] \<and> is_operand_flag (Ret_a ''1x'') \<and>
      \<not> accepted (Ret_a ''1x'')"
    by (simp add: eval_defs)
  have q': "list_all accepted_int [Ret_o ''add'', Ret_a ''1''] \<and> \<not> accepted_int (Ret_a ''1x'')"
    by (simp add: eval_defs)
  have e: "parse [Ret_a ''1'', Ret_o ''add'', Ret_b ''3'', Ret_a ''2'', Ret_o ''mul'', Ret_b ''4'']
      ''calc'' context0 world0 =
     (exit_ok,
      \<lparr>c_op = op_mul, c_have_op = True, c_a = 2, c_have_a = True, c_b = 4, c_have_b = True,
       c_r = \<lparr>r_error = ml_ok, r_kind = kind_i64, r_value = 0\<rparr>\<rparr>, world0)"
    by (simp add: eval_defs)
  have l: "last_o [Ret_a ''1'', Ret_o ''add'', Ret_b ''3'', Ret_a ''2'', Ret_o ''mul'', Ret_b ''4''] =
     Some ''mul''"
    by simp
  from last_occurrence_wins
    [of "[Ret_a ''1'', Ret_o ''add'', Ret_b ''3'', Ret_a ''2'', Ret_o ''mul'', Ret_b ''4'']"
        "''calc''" context0 world0 main_vars0 world0
        "[Ret_o ''add'', Ret_a ''1'']" "Ret_a ''1x''" ref_engine "[Ret_a ''2'', Ret_b ''3'']" ref_engine]
    q q'
  have r: "run ref_engine ''calc'' ([Ret_o ''add'', Ret_a ''1''] @ Ret_a ''1x'' # [Ret_a ''2'', Ret_b ''3'']) =
     (1, \<lparr>stdout = [], stderr = rejection_line (Ret_a ''1x''), calls = []\<rparr>) \<and>
   main_int ref_engine ''calc'' ([Ret_o ''add'', Ret_a ''1''] @ Ret_a ''1x'' # [Ret_a ''2'', Ret_b ''3'']) =
     (1, \<lparr>stdout = [], stderr = rejection_line (Ret_a ''1x''), calls = []\<rparr>)"
    by simp
  from e l r show ?thesis by blast
qed

section \<open>Which operand strings are accepted\<close>

lemma length_takeWhile_eq:
  "length (takeWhile P xs) = length xs \<longleftrightarrow> list_all P xs"
proof (induction xs)
  case Nil
  show ?case by simp
next
  case (Cons x xs)
  have "length (takeWhile P xs) \<le> length xs" by (rule length_takeWhile_le)
  with Cons show ?case by auto
qed

lemma strtoll_spec:
  fixes s :: string
  defines "t \<equiv> dropWhile isspace s"
  shows "strtoll s =
     (if (if has_sign t then tl t else t) = [] \<or> \<not> isdigit (hd (if has_sign t then tl t else t))
      then (0, 0, False)
      else
        (let ds = takeWhile isdigit (if has_sign t then tl t else t);
             v = (if t \<noteq> [] \<and> hd t = CHR ''-'' then - digits_value ds else digits_value ds);
             e = length (takeWhile isspace s) + (if has_sign t then 1 else 0) + length ds
         in if v > LLONG_MAX then (LLONG_MAX, e, True)
            else if v < LLONG_MIN then (LLONG_MIN, e, True) else (v, e, False)))"
proof -
  have "takeWhile isdigit xs = [] \<longleftrightarrow> xs = [] \<or> \<not> isdigit (hd xs)" for xs
    by (cases xs) auto
  then show ?thesis
    unfolding strtoll_def t_def has_sign_def Let_def by auto
qed

lemma accept_iff:
  fixes s :: string
  defines "t \<equiv> dropWhile isspace s"
  assumes st: "strtoll s = (v, e, r)"
  shows "(\<not> (e = 0 \<or> e \<noteq> length s)) \<longleftrightarrow> base10_signed t"
    and "base10_signed t \<Longrightarrow> r \<longleftrightarrow> \<not> (LLONG_MIN \<le> base10_value t \<and> base10_value t \<le> LLONG_MAX)"
    and "base10_signed t \<Longrightarrow> \<not> r \<Longrightarrow> v = base10_value t"
proof -
  define u where "u = (if has_sign t then tl t else t)"
  have len: "length s = length (takeWhile isspace s) + (if has_sign t then 1 else 0) + length u"
  proof -
    have "length s = length (takeWhile isspace s) + length t"
      unfolding t_def by (metis length_append takeWhile_dropWhile_id)
    moreover have "length t = (if has_sign t then 1 else 0) + length u"
      unfolding u_def has_sign_def by (cases t) auto
    ultimately show ?thesis by simp
  qed
  have b: "base10_signed t \<longleftrightarrow> u \<noteq> [] \<and> list_all isdigit u"
    by (simp add: base10_signed_def u_def Let_def)
  have hd_digit: "u \<noteq> [] \<and> list_all isdigit u \<Longrightarrow> isdigit (hd u)"
    by (cases u) auto
  have tw: "list_all isdigit u \<Longrightarrow> takeWhile isdigit u = u"
    by (simp add: takeWhile_eq_all_conv list_all_iff)
  have val: "base10_signed t \<Longrightarrow>
     (if t \<noteq> [] \<and> hd t = CHR ''-'' then - digits_value u else digits_value u) = base10_value t"
    unfolding base10_value_def u_def has_sign_def by auto
  note sp = strtoll_spec [of s, folded t_def, folded u_def]
  show "(\<not> (e = 0 \<or> e \<noteq> length s)) \<longleftrightarrow> base10_signed t"
  proof (cases "u = [] \<or> \<not> isdigit (hd u)")
    case True
    with st sp have "e = 0" by simp
    moreover from True hd_digit b have "\<not> base10_signed t" by auto
    ultimately show ?thesis by simp
  next
    case False
    then have ne: "takeWhile isdigit u \<noteq> []" by (cases u) auto
    from False st sp have e: "e = length (takeWhile isspace s) + (if has_sign t then 1 else 0) +
        length (takeWhile isdigit u)"
      by (auto simp: Let_def split: if_splits)
    with ne have "e \<noteq> 0" by simp
    moreover have "e = length s \<longleftrightarrow> list_all isdigit u"
      using e len length_takeWhile_eq [of isdigit u] by auto
    ultimately show ?thesis using b False by auto
  qed
  show "r \<longleftrightarrow> \<not> (LLONG_MIN \<le> base10_value t \<and> base10_value t \<le> LLONG_MAX)" if bt: "base10_signed t"
  proof -
    from bt b hd_digit have nf: "\<not> (u = [] \<or> \<not> isdigit (hd u))" by auto
    from bt b tw have "takeWhile isdigit u = u" by simp
    with nf st sp val [OF bt] show ?thesis
      by (auto simp: Let_def split: if_splits)
  qed
  show "v = base10_value t" if bt: "base10_signed t" and nr: "\<not> r"
  proof -
    from bt b hd_digit have nf: "\<not> (u = [] \<or> \<not> isdigit (hd u))" by auto
    from bt b tw have "takeWhile isdigit u = u" by simp
    with nf st sp val [OF bt] nr show ?thesis
      by (auto simp: Let_def split: if_splits)
  qed
qed


lemma strtoll_erange:
  "strtoll s = (v, e, r) \<Longrightarrow> r \<Longrightarrow> v = LLONG_MAX \<or> v = LLONG_MIN"
  by (auto simp: strtoll_def Let_def split: if_splits)

lemma parse_i64_spec:
  "parse_i64 (Some s) =
     (let t = dropWhile isspace s
      in if base10_signed t \<and> LLONG_MIN \<le> base10_value t \<and> base10_value t \<le> LLONG_MAX
         then Some (word_of_int (base10_value t)) else None)"
proof -
  obtain v e r where st: "strtoll s = (v, e, r)"
    by (cases "strtoll s") auto
  note a = accept_iff [OF st]
  show ?thesis
  proof (cases "base10_signed (dropWhile isspace s)")
    case False
    with a(1) st show ?thesis by (auto simp: parse_i64_def Let_def)
  next
    case True
    with a(1) have e: "\<not> (e = 0 \<or> e \<noteq> length s)" by blast
    show ?thesis
    proof (cases r)
      case True
      with a(2) [OF \<open>base10_signed (dropWhile isspace s)\<close>] st e
      show ?thesis by (auto simp: parse_i64_def Let_def)
    next
      case False
      with a(2) [OF \<open>base10_signed (dropWhile isspace s)\<close>]
        a(3) [OF \<open>base10_signed (dropWhile isspace s)\<close>] st e
        \<open>base10_signed (dropWhile isspace s)\<close>
      show ?thesis by (auto simp: parse_i64_def Let_def)
    qed
  qed
qed

lemma parse_int_spec:
  "parse_int (Some s) =
     (let t = dropWhile isspace s
      in if base10_signed t \<and> INT_MIN \<le> base10_value t \<and> base10_value t \<le> INT_MAX
         then Some (word_of_int (base10_value t)) else None)"
proof -
  obtain v e r where st: "strtoll s = (v, e, r)"
    by (cases "strtoll s") auto
  note a = accept_iff [OF st]
  show ?thesis
  proof (cases "base10_signed (dropWhile isspace s)")
    case False
    with a(1) st show ?thesis by (auto simp: parse_int_def strtol_def Let_def)
  next
    case True
    with a(1) have e: "\<not> (e = 0 \<or> e \<noteq> length s)" by blast
    show ?thesis
    proof (cases r)
      case True
      from strtoll_erange [OF st True] have "v < INT_MIN \<or> v > INT_MAX"
        by (auto simp: LLONG_MAX_def LLONG_MIN_def INT_MAX_def INT_MIN_def)
      moreover from a(2) [OF \<open>base10_signed (dropWhile isspace s)\<close>] True
      have "\<not> (INT_MIN \<le> base10_value (dropWhile isspace s) \<and>
                base10_value (dropWhile isspace s) \<le> INT_MAX)"
        by (auto simp: LLONG_MAX_def LLONG_MIN_def INT_MAX_def INT_MIN_def)
      ultimately show ?thesis using st e
        by (auto simp: parse_int_def strtol_def Let_def)
    next
      case False
      with a(3) [OF \<open>base10_signed (dropWhile isspace s)\<close>] st e
        \<open>base10_signed (dropWhile isspace s)\<close>
      show ?thesis by (auto simp: parse_int_def strtol_def Let_def)
    qed
  qed
qed

lemma sint_of_int_64:
  "LLONG_MIN \<le> x \<Longrightarrow> x \<le> LLONG_MAX \<Longrightarrow> sint (word_of_int x :: 64 word) = x"
  by (simp add: LLONG_MIN_def LLONG_MAX_def sint_sbintrunc' signed_take_bit_int_eq_self)

lemma sint_of_int_32:
  "INT_MIN \<le> x \<Longrightarrow> x \<le> INT_MAX \<Longrightarrow> sint (word_of_int x :: 32 word) = x"
  by (simp add: INT_MIN_def INT_MAX_def sint_sbintrunc' signed_take_bit_int_eq_self)


text \<open>
  Claim C7, amended. An operand string is accepted exactly when, after the white space
  that \<^verbatim>\<open>strtoll\<close> and \<^verbatim>\<open>strtol\<close> skip at its start, it is a base-10 signed integer (an
  optional sign, one or more decimal digits, nothing after them) whose value lies in the
  range of the parse width: 64 bits for \<^verbatim>\<open>parse_i64\<close>, the range of \<^verbatim>\<open>int\<close> for
  \<^verbatim>\<open>parse_int\<close>. The operand stored is that value. Every other string given to \<^verbatim>\<open>-a\<close> or
  \<^verbatim>\<open>-b\<close> ends the program with the invalid-integer line and the usage code 1.
\<close>

theorem operand_accepted_iff:
  "(parse_i64 (Some s) \<noteq> None \<longleftrightarrow>
      base10_signed (dropWhile isspace s) \<and>
      LLONG_MIN \<le> base10_value (dropWhile isspace s) \<and>
      base10_value (dropWhile isspace s) \<le> LLONG_MAX) \<and>
   (parse_i64 (Some s) = Some x \<longrightarrow> sint x = base10_value (dropWhile isspace s)) \<and>
   (parse_int (Some s) \<noteq> None \<longleftrightarrow>
      base10_signed (dropWhile isspace s) \<and>
      INT_MIN \<le> base10_value (dropWhile isspace s) \<and>
      base10_value (dropWhile isspace s) \<le> INT_MAX) \<and>
   (parse_int (Some s) = Some y \<longrightarrow> sint y = base10_value (dropWhile isspace s)) \<and>
   (parse_i64 (Some s) = None \<longrightarrow>
      run E prog (Ret_a s # post) =
        (exit_status exit_usage, \<lparr>stdout = [], stderr = rejection_line (Ret_a s), calls = []\<rparr>) \<and>
      run E prog (Ret_b s # post) =
        (exit_status exit_usage, \<lparr>stdout = [], stderr = rejection_line (Ret_b s), calls = []\<rparr>)) \<and>
   (parse_int (Some s) = None \<longrightarrow>
      main_int E' prog (Ret_a s # post) =
        (exit_status exit_usage, \<lparr>stdout = [], stderr = rejection_line (Ret_a s), calls = []\<rparr>) \<and>
      main_int E' prog (Ret_b s # post) =
        (exit_status exit_usage, \<lparr>stdout = [], stderr = rejection_line (Ret_b s), calls = []\<rparr>))"
proof -
  let ?t = "dropWhile isspace s"
  have a1: "parse_i64 (Some s) \<noteq> None \<longleftrightarrow>
      base10_signed ?t \<and> LLONG_MIN \<le> base10_value ?t \<and> base10_value ?t \<le> LLONG_MAX"
    by (simp add: parse_i64_spec Let_def)
  have a2: "parse_i64 (Some s) = Some x \<longrightarrow> sint x = base10_value ?t"
    by (auto simp: parse_i64_spec Let_def sint_of_int_64 split: if_splits)
  have a3: "parse_int (Some s) \<noteq> None \<longleftrightarrow>
      base10_signed ?t \<and> INT_MIN \<le> base10_value ?t \<and> base10_value ?t \<le> INT_MAX"
    by (simp add: parse_int_spec Let_def)
  have a4: "parse_int (Some s) = Some y \<longrightarrow> sint y = base10_value ?t"
    by (auto simp: parse_int_spec Let_def sint_of_int_32 split: if_splits)
  have a5: "parse_i64 (Some s) = None \<longrightarrow>
      run E prog (Ret_a s # post) =
        (exit_status exit_usage, \<lparr>stdout = [], stderr = rejection_line (Ret_a s), calls = []\<rparr>) \<and>
      run E prog (Ret_b s # post) =
        (exit_status exit_usage, \<lparr>stdout = [], stderr = rejection_line (Ret_b s), calls = []\<rparr>)"
    using run_rejected [of "[]" "Ret_a s" E prog post] run_rejected [of "[]" "Ret_b s" E prog post]
    by simp
  have a6: "parse_int (Some s) = None \<longrightarrow>
      main_int E' prog (Ret_a s # post) =
        (exit_status exit_usage, \<lparr>stdout = [], stderr = rejection_line (Ret_a s), calls = []\<rparr>) \<and>
      main_int E' prog (Ret_b s # post) =
        (exit_status exit_usage, \<lparr>stdout = [], stderr = rejection_line (Ret_b s), calls = []\<rparr>)"
    using main_int_rejected [of "[]" "Ret_a s" E' prog post]
      main_int_rejected [of "[]" "Ret_b s" E' prog post]
    by simp
  from a1 a2 a3 a4 a5 a6 show ?thesis by blast
qed

theorem operand_accepted_iff_witness:
  "parse_i64 (Some '' -42'') = Some (- 42) \<and>
   sint (- 42 :: 64 word) = base10_value (dropWhile isspace '' -42'') \<and>
   base10_value (dropWhile isspace '' -42'') = - 42 \<and>
   parse_int (Some ''2147483648'') = None \<and>
   run ref_engine ''calc'' (Ret_a ''42x'' # [Ret_o ''add'']) =
     (1, \<lparr>stdout = [], stderr = rejection_line (Ret_a ''42x''), calls = []\<rparr>) \<and>
   main_int ref_engine ''calc'' (Ret_b ''2147483648'' # [Ret_o ''add'']) =
     (1, \<lparr>stdout = [], stderr = rejection_line (Ret_b ''2147483648''), calls = []\<rparr>)"
proof -
  have p: "parse_i64 (Some '' -42'') = Some (- 42)"
    by (simp add: eval_defs)
  have v: "base10_value (dropWhile isspace '' -42'') = - 42"
    by (simp add: base10_value_def eval_defs)
  have q: "parse_int (Some ''2147483648'') = None"
    by (simp add: eval_defs)
  from operand_accepted_iff [of "'' -42''" "- 42" 0 ref_engine "''calc''" "[]" ref_engine] p
  have r1: "sint (- 42 :: 64 word) = base10_value (dropWhile isspace '' -42'')"
    by blast
  have q': "parse_i64 (Some ''42x'') = None"
    by (simp add: eval_defs)
  from operand_accepted_iff [of "''42x''" 0 0 ref_engine "''calc''" "[Ret_o ''add'']" ref_engine] q'
  have r2: "run ref_engine ''calc'' (Ret_a ''42x'' # [Ret_o ''add'']) =
     (1, \<lparr>stdout = [], stderr = rejection_line (Ret_a ''42x''), calls = []\<rparr>)"
    by simp
  from operand_accepted_iff
    [of "''2147483648''" 0 0 ref_engine "''calc''" "[Ret_o ''add'']" ref_engine] q
  have r3: "main_int ref_engine ''calc'' (Ret_b ''2147483648'' # [Ret_o ''add'']) =
     (1, \<lparr>stdout = [], stderr = rejection_line (Ret_b ''2147483648''), calls = []\<rparr>)"
    by simp
  from p v q r1 r2 r3 show ?thesis by blast
qed

text \<open>The claim as stated fails on a leading blank: \<^verbatim>\<open>" 42"\<close> is not a sign and digits
  only, and both programs accept it as 42.\<close>

theorem operand_accepted_iff_counterexample:
  "parse_i64 (Some '' 42'') = Some 42 \<and>
   parse_int (Some '' 42'') = Some 42 \<and>
   \<not> base10_signed '' 42''"
  by (simp add: eval_defs base10_signed_def has_sign_def)

section \<open>Decimal output reads back\<close>

lemma digit_char_code: "d < 10 \<Longrightarrow> (of_char (digit_char d) :: int) = 48 + int d"
proof -
  assume "d < 10"
  then have "d = 0 \<or> d = 1 \<or> d = 2 \<or> d = 3 \<or> d = 4 \<or> d = 5 \<or> d = 6 \<or> d = 7 \<or> d = 8 \<or> d = 9"
    by arith
  then show ?thesis
    by (elim disjE) (simp_all add: digit_char_def)
qed

lemma digits_value_snoc:
  "digits_value (ds @ [c]) = 10 * digits_value ds + (of_char c - 48)"
  by (simp add: digits_value_def)

lemma digits_value_dec_digits: "digits_value (dec_digits n) = int n"
proof (induction n rule: dec_digits.induct)
  case (1 n)
  show ?case
  proof (cases "n < 10")
    case True
    then show ?thesis
      by (simp add: dec_digits.simps [of n] digits_value_def digit_char_code)
  next
    case False
    with 1 have ih: "digits_value (dec_digits (n div 10)) = int (n div 10)" by simp
    have "n mod 10 < 10" by simp
    then have dc: "(of_char (digit_char (n mod 10)) :: int) = 48 + int (n mod 10)"
      by (rule digit_char_code)
    from False have "dec_digits n = dec_digits (n div 10) @ [digit_char (n mod 10)]"
      by (simp add: dec_digits.simps [of n])
    then have "digits_value (dec_digits n) = 10 * int (n div 10) + int (n mod 10)"
      by (simp add: digits_value_snoc ih dc)
    also have "\<dots> = int n"
      by (simp add: zdiv_int zmod_int)
    finally show ?thesis .
  qed
qed

lemma digit_char_isdigit: "d < 10 \<Longrightarrow> isdigit (digit_char d)"
proof -
  assume d: "d < 10"
  have "(of_char (digit_char d) :: nat) = nat (of_char (digit_char d) :: int)"
    by simp
  with digit_char_code [OF d] have "(of_char (digit_char d) :: nat) = 48 + d" by simp
  with d show ?thesis by (simp add: isdigit_def)
qed

lemma dec_digits_hd: "dec_digits n \<noteq> [] \<and> isdigit (hd (dec_digits n))"
proof (induction n rule: dec_digits.induct)
  case (1 n)
  show ?case
  proof (cases "n < 10")
    case True
    then show ?thesis
      by (simp add: dec_digits.simps [of n] digit_char_isdigit)
  next
    case False
    with 1 have ih: "dec_digits (n div 10) \<noteq> [] \<and> isdigit (hd (dec_digits (n div 10)))" by simp
    from False have "dec_digits n = dec_digits (n div 10) @ [digit_char (n mod 10)]"
      by (simp add: dec_digits.simps [of n])
    with ih show ?thesis by simp
  qed
qed

lemma isdigit_not_sign: "isdigit c \<Longrightarrow> c \<noteq> CHR ''-'' \<and> c \<noteq> CHR ''+''"
  by (auto simp: isdigit_def)

lemma base10_value_dec_int: "base10_value (dec_int i) = i"
proof (cases "i < 0")
  case True
  then show ?thesis
    by (simp add: dec_int_def base10_value_def digits_value_dec_digits)
next
  case False
  from dec_digits_hd [of "nat i"] isdigit_not_sign [of "hd (dec_digits (nat i))"]
  have "hd (dec_digits (nat i)) \<noteq> CHR ''-'' \<and> hd (dec_digits (nat i)) \<noteq> CHR ''+''"
    by simp
  with False show ?thesis
    by (simp add: dec_int_def base10_value_def digits_value_dec_digits)
qed

section \<open>Overflow\<close>

lemma kOps_find_not_none: "kOps_find kOps s \<noteq> Some op_none"
  by (simp add: kOps_def)

lemma parse_op_known:
  "parse rets prog c w = (exit_ok, c', w') \<Longrightarrow> c_have_op c \<longrightarrow> c_op c \<noteq> op_none \<Longrightarrow>
   c_have_op c' \<longrightarrow> c_op c' \<noteq> op_none"
proof (induction rets arbitrary: c)
  case Nil
  then show ?case by simp
next
  case (Cons r rets)
  show ?case
  proof (cases r)
    case (Ret_o s)
    with Cons.prems(1) obtain v where v: "parse_op (Some s) = Some v"
      and rest: "parse rets prog (c\<lparr>c_op := v, c_have_op := True\<rparr>) w = (exit_ok, c', w')"
      by (auto split: option.splits)
    from v have "v \<noteq> op_none"
      using kOps_find_not_none [of s] by (auto simp: parse_op_def)
    with Cons.IH [OF rest] show ?thesis by simp
  next
    case (Ret_a s)
    with Cons show ?thesis by (auto split: option.splits)
  next
    case (Ret_b s)
    with Cons show ?thesis by (auto split: option.splits)
  next
    case Ret_h
    with Cons show ?thesis by simp
  next
    case Ret_other
    with Cons show ?thesis by simp
  qed
qed

lemma run_calls_engine:
  assumes p: "parse rets prog context0 world0 = (exit_ok, c, w)"
    and ch: "check c prog w = (exit_ok, w)"
  shows "\<exists>k. calls (snd (run E prog rets)) = [k]"
proof -
  have w: "w = world0" using parse_ok_world [OF p] .
  from ch have "c_have_op c" by (auto simp: check_def split: if_splits)
  with parse_op_known [OF p] have o: "c_op c \<noteq> op_none" by (simp add: context0_def)
  obtain rc2 c2 w2 where a: "calc E c world0 = (rc2, c2, w2)"
    by (cases "calc E c world0") auto
  from o a have rc2: "rc2 = exit_ok" by (cases "c_op c") (auto simp: calc_def)
  from calc_called [of E c world0 c2 w2] a rc2 obtain k where k: "w2 = log_call k world0"
    by auto
  have "calls (snd (run E prog rets)) = calls w2"
    using p w ch a rc2 by (auto simp: run_def print_result_calls_eq split: prod.splits)
  with k show ?thesis by (simp add: log_call_def world0_def)
qed

lemma run_overflow:
  assumes "calls (snd (run E prog rets)) = [k]" and "r_error (engine_result E k) = ml_overflow"
  shows "run E prog rets =
     (2, \<lparr>stdout = [], stderr = ''Error: calc: overflow\<newline>'', calls = [k]\<rparr>)"
  using run_called [OF assms(1)] assms(2)
  by (simp add: print_result_def print_math_err_def put_err_def log_call_def world0_def)

lemma run_success:
  assumes "calls (snd (run E prog rets)) = [k]" and "r_error (engine_result E k) = ml_ok"
  shows "run E prog rets =
     (0, \<lparr>stdout = (if r_kind (engine_result E k) = kind_i64
                      then dec_int (sint (r_value (engine_result E k)))
                      else dec_digits (unat (r_value (engine_result E k)))) @ ''\<newline>'',
          stderr = [], calls = [k]\<rparr>)"
  using run_called [OF assms(1)] assms(2)
  by (simp add: print_result_def put_out_def log_call_def world0_def)

lemma unat_nonneg_sint: "0 \<le> sint (x :: 'a::len word) \<Longrightarrow> unat x = nat (sint x)"
  using uint_nonneg_sint [of x] by (simp add: unat_eq_nat_uint)

lemma ref_engine_overflow:
  assumes ch: "check c prog w = (exit_ok, w1)"
    and o: "c_op c \<noteq> op_none"
    and nr: "\<not> representable64 (c_op c) (sint (c_a c))
               (true_result (c_op c) (sint (c_a c)) (sint (c_b c)))"
    and ca: "calc ref_engine c w2 = (rc, c', w3)"
  shows "r_error (c_r c') = ml_overflow"
proof (cases "c_op c")
  case op_none
  with o show ?thesis by simp
next
  case op_add
  with nr ca show ?thesis
    by (auto simp: calc_def ref_engine_def checked_signed_def true_result_def representable64_def)
next
  case op_sub
  with nr ca show ?thesis
    by (auto simp: calc_def ref_engine_def checked_signed_def true_result_def representable64_def)
next
  case op_mul
  with nr ca show ?thesis
    by (auto simp: calc_def ref_engine_def checked_signed_def true_result_def representable64_def)
next
  case op_div
  from nr op_div have "c_b c \<noteq> 0"
    by (auto simp: true_result_def representable64_def trunc_quot_def)
  with op_div nr ca show ?thesis
    by (auto simp: calc_def ref_engine_def checked_signed_def true_result_def representable64_def)
next
  case op_pow
  from check_ok_pow [OF ch op_pow] have b: "unat (c_b c) = nat (sint (c_b c))"
    by (rule unat_nonneg_sint)
  show ?thesis
  proof (cases "0 \<le> sint (c_a c)")
    case True
    with op_pow nr ca b show ?thesis
      by (auto simp: calc_def ref_engine_def checked_unsigned_def
          true_result_def representable64_def to_uint64_id)
  next
    case False
    with op_pow nr ca b show ?thesis
      by (auto simp: calc_def ref_engine_def checked_signed_def
          true_result_def representable64_def to_uint64_id)
  qed
next
  case op_fact
  from check_ok_fact [OF ch op_fact] have a: "unat (c_a c) = nat (sint (c_a c))"
    by (rule unat_nonneg_sint)
  with op_fact nr ca show ?thesis
    by (auto simp: calc_def ref_engine_def checked_unsigned_def
        true_result_def representable64_def to_uint64_id)
qed

lemma run_ref_overflow:
  assumes p: "parse rets prog context0 world0 = (exit_ok, c, w)"
    and ch: "check c prog w = (exit_ok, w)"
    and nr: "\<not> representable64 (c_op c) (sint (c_a c))
               (true_result (c_op c) (sint (c_a c)) (sint (c_b c)))"
  shows "\<exists>k. run ref_engine prog rets =
     (2, \<lparr>stdout = [], stderr = ''Error: calc: overflow\<newline>'', calls = [k]\<rparr>)"
proof -
  from ch have "c_have_op c" by (auto simp: check_def split: if_splits)
  with parse_op_known [OF p] have o: "c_op c \<noteq> op_none" by (simp add: context0_def)
  from run_calls_engine [OF p ch, of ref_engine] obtain k where
    k: "calls (snd (run ref_engine prog rets)) = [k]" by blast
  from run_trace [OF p k] obtain c' where
    ca: "calc ref_engine c world0 = (exit_ok, c', log_call k world0)" by blast
  from calc_called [OF ca] obtain k0 where
    k0: "log_call k (world0 :: 64 word world) = log_call k0 world0" "c_r c' = engine_result ref_engine k0"
    by blast
  from k0(1) have "k0 = k" by (simp add: log_call_def world0_def)
  with k0(2) ref_engine_overflow [OF ch o nr ca]
  have "r_error (engine_result ref_engine k) = ml_overflow" by simp
  from run_overflow [OF k this] show ?thesis by blast
qed

lemma structurally_valid_check:
  assumes p: "parse rets prog context0 world0 = (exit_ok, c, w)"
    and o: "c_op c \<noteq> op_none" and a: "c_have_a c" and ar: "needs_b (c_op c) = c_have_b c"
    and nr: "\<not> representable64 (c_op c) (sint (c_a c))
               (true_result (c_op c) (sint (c_a c)) (sint (c_b c)))"
  shows "check c prog w = (exit_ok, w)"
proof -
  have ho: "c_have_op c" using parse0_have_op [OF p o] .
  have d1: "\<not> (c_op c = op_pow \<and> sint (c_b c) < 0)"
  proof
    assume "c_op c = op_pow \<and> sint (c_b c) < 0"
    with nr show False by (auto simp: true_result_def representable64_def split: if_splits)
  qed
  have d2: "\<not> (c_op c = op_fact \<and> sint (c_a c) < 0)"
  proof
    assume "c_op c = op_fact \<and> sint (c_a c) < 0"
    with nr show False by (auto simp: true_result_def representable64_def)
  qed
  from ho a ar d1 d2 show ?thesis by (auto simp: check_def)
qed

text \<open>
  Claim C1, amended: the first program only. mathlib is not among the sources, so the
  engine is the reference engine, modelled from the spec. For every structurally valid
  request (the option loop ran to its end, \<^verbatim>\<open>-o\<close> and \<^verbatim>\<open>-a\<close> were given, \<^verbatim>\<open>-b\<close> was
  given exactly when the operation takes it), for each of the six operations, whose true
  mathematical result on the operands the user gave is outside the range the engine can
  represent, the program writes \<^verbatim>\<open>Error: calc: overflow\<close> to standard error, exits with
  the math code 2, and writes nothing to standard output: no wrapped or truncated number
  is printed.
\<close>

theorem overflow_reported:
  "parse rets prog context0 world0 = (exit_ok, c, w) \<and>
   c_op c \<noteq> op_none \<and> c_have_a c \<and> needs_b (c_op c) = c_have_b c \<and>
   \<not> representable64 (c_op c) (sint (c_a c))
       (true_result (c_op c) (sint (c_a c)) (sint (c_b c)))
   \<longrightarrow> (\<exists>k. run ref_engine prog rets =
          (exit_status exit_math,
           \<lparr>stdout = [], stderr = ''Error: calc: overflow\<newline>'', calls = [k]\<rparr>))"
proof
  assume h: "parse rets prog context0 world0 = (exit_ok, c, w) \<and>
   c_op c \<noteq> op_none \<and> c_have_a c \<and> needs_b (c_op c) = c_have_b c \<and>
   \<not> representable64 (c_op c) (sint (c_a c))
       (true_result (c_op c) (sint (c_a c)) (sint (c_b c)))"
  then have p: "parse rets prog context0 world0 = (exit_ok, c, w)"
    and nr: "\<not> representable64 (c_op c) (sint (c_a c))
       (true_result (c_op c) (sint (c_a c)) (sint (c_b c)))"
    by simp_all
  from h have ch: "check c prog w = (exit_ok, w)"
    using structurally_valid_check [of rets prog c w] by blast
  from run_ref_overflow [OF p ch nr]
  show "\<exists>k. run ref_engine prog rets =
          (exit_status exit_math,
           \<lparr>stdout = [], stderr = ''Error: calc: overflow\<newline>'', calls = [k]\<rparr>)"
    by simp
qed

theorem overflow_reported_witness:
  "(\<exists>k. run ref_engine ''calc'' [Ret_o ''mul'', Ret_a ''9223372036854775807'', Ret_b ''2''] =
     (2, \<lparr>stdout = [], stderr = ''Error: calc: overflow\<newline>'', calls = [k]\<rparr>)) \<and>
   (\<exists>k. run ref_engine ''calc'' [Ret_o ''fact'', Ret_a ''21''] =
     (2, \<lparr>stdout = [], stderr = ''Error: calc: overflow\<newline>'', calls = [k]\<rparr>))"
proof -
  let ?c = "\<lparr>c_op = op_mul, c_have_op = True, c_a = 9223372036854775807, c_have_a = True,
      c_b = 2, c_have_b = True, c_r = \<lparr>r_error = ml_ok, r_kind = kind_i64, r_value = 0\<rparr>\<rparr>"
  let ?d = "\<lparr>c_op = op_fact, c_have_op = True, c_a = 21, c_have_a = True,
      c_b = 0, c_have_b = False, c_r = \<lparr>r_error = ml_ok, r_kind = kind_i64, r_value = 0\<rparr>\<rparr>"
  have p: "parse [Ret_o ''mul'', Ret_a ''9223372036854775807'', Ret_b ''2''] ''calc''
      context0 world0 = (exit_ok, ?c, world0)"
    by (simp add: eval_defs)
  have n: "\<not> representable64 op_mul (sint (9223372036854775807 :: 64 word))
      (true_result op_mul (sint (9223372036854775807 :: 64 word)) (sint (2 :: 64 word)))"
    by (simp add: representable64_def true_result_def)
  have q: "parse [Ret_o ''fact'', Ret_a ''21''] ''calc'' context0 world0 = (exit_ok, ?d, world0)"
    by (simp add: eval_defs)
  have m: "\<not> representable64 op_fact (sint (21 :: 64 word))
      (true_result op_fact (sint (21 :: 64 word)) (sint (0 :: 64 word)))"
    by (simp add: representable64_def true_result_def fact_numeral)
  from overflow_reported
    [of "[Ret_o ''mul'', Ret_a ''9223372036854775807'', Ret_b ''2'']" "''calc''" ?c world0]
    p n
  have r1: "\<exists>k. run ref_engine ''calc'' [Ret_o ''mul'', Ret_a ''9223372036854775807'', Ret_b ''2''] =
     (2, \<lparr>stdout = [], stderr = ''Error: calc: overflow\<newline>'', calls = [k]\<rparr>)"
    by (simp add: needs_b_def)
  from overflow_reported [of "[Ret_o ''fact'', Ret_a ''21'']" "''calc''" ?d world0] q m
  have r2: "\<exists>k. run ref_engine ''calc'' [Ret_o ''fact'', Ret_a ''21''] =
     (2, \<lparr>stdout = [], stderr = ''Error: calc: overflow\<newline>'', calls = [k]\<rparr>)"
    by (simp add: needs_b_def)
  from r1 r2 show ?thesis by blast
qed

text \<open>The claim as stated fails in the second program: for \<^verbatim>\<open>mul\<close> of \<^verbatim>\<open>INT_MAX\<close> and 2
  the reference engine reports \<^verbatim>\<open>overflow\<close>, and \<^verbatim>\<open>run_operation\<close> prints the payload and
  exits with 0.\<close>

theorem overflow_reported_counterexample:
  "main_int ref_engine ''calc'' [Ret_o ''mul'', Ret_a ''2147483647'', Ret_b ''2''] =
     (0, \<lparr>stdout = ''0\<newline>'', stderr = [], calls = [Call_mul 2147483647 2]\<rparr>) \<and>
   ml_mul (ref_engine :: 32 word engine) 2147483647 2 =
     \<lparr>r_error = ml_overflow, r_kind = kind_i64, r_value = 0\<rparr>"
  by (simp add: eval_defs)

section \<open>Printing a result\<close>

text \<open>
  Claim C6, amended. In the first program a result carries a tag with two values,
  \<^verbatim>\<open>i64\<close> and \<^verbatim>\<open>u64\<close>, and \<^verbatim>\<open>print_result\<close> prints a successful result by it: the
  payload read as a signed number, in decimal with \<^verbatim>\<open>%lld\<close>, under \<^verbatim>\<open>i64\<close>, and read as an
  unsigned number, in decimal with \<^verbatim>\<open>%llu\<close>, otherwise; so does a whole run that called
  mathlib with success. The second program reads no tag: a successful run prints the
  payload with \<^verbatim>\<open>%d\<close>, as a signed number, whatever the tag. The digits printed denote
  the number printed.
\<close>

theorem result_printed_by_tag:
  "(r_error r = ml_ok \<longrightarrow>
      print_result r w =
        (exit_ok,
         put_out ((if r_kind r = kind_i64 then dec_int (sint (r_value r))
                   else dec_digits (unat (r_value r))) @ ''\<newline>'') w)) \<and>
   (calls (snd (run E prog rets)) = [k] \<and> r_error (engine_result E k) = ml_ok \<longrightarrow>
      run E prog rets =
        (exit_status exit_ok,
         \<lparr>stdout = (if r_kind (engine_result E k) = kind_i64
                     then dec_int (sint (r_value (engine_result E k)))
                     else dec_digits (unat (r_value (engine_result E k)))) @ ''\<newline>'',
          stderr = [], calls = [k]\<rparr>)) \<and>
   (calls (snd (main_int E' prog rets)) = [k'] \<and> r_error (engine_result E' k') = ml_ok \<longrightarrow>
      main_int E' prog rets =
        (exit_status exit_ok,
         \<lparr>stdout = dec_int (sint (r_value (engine_result E' k'))) @ ''\<newline>'', stderr = [],
          calls = [k']\<rparr>)) \<and>
   base10_value (dec_int i) = i \<and>
   digits_value (dec_digits n) = int n \<and>
   (t = kind_i64 \<or> t = kind_u64)"
proof -
  have a1: "r_error r = ml_ok \<longrightarrow>
      print_result r w =
        (exit_ok,
         put_out ((if r_kind r = kind_i64 then dec_int (sint (r_value r))
                   else dec_digits (unat (r_value r))) @ ''\<newline>'') w)"
    by (simp add: print_result_def)
  have a2: "calls (snd (run E prog rets)) = [k] \<and> r_error (engine_result E k) = ml_ok \<longrightarrow>
      run E prog rets =
        (exit_status exit_ok,
         \<lparr>stdout = (if r_kind (engine_result E k) = kind_i64
                     then dec_int (sint (r_value (engine_result E k)))
                     else dec_digits (unat (r_value (engine_result E k)))) @ ''\<newline>'',
          stderr = [], calls = [k]\<rparr>)"
    using run_success [of E prog rets k] by simp
  have a3: "calls (snd (main_int E' prog rets)) = [k'] \<and> r_error (engine_result E' k') = ml_ok \<longrightarrow>
      main_int E' prog rets =
        (exit_status exit_ok,
         \<lparr>stdout = dec_int (sint (r_value (engine_result E' k'))) @ ''\<newline>'', stderr = [],
          calls = [k']\<rparr>)"
    using main_int_called [of E' prog rets k']
    by (auto simp: put_out_def log_call_def world0_def)
  have a4: "t = kind_i64 \<or> t = kind_u64"
    by (cases t) auto
  from a1 a2 a3 a4 base10_value_dec_int [of i] digits_value_dec_digits [of n]
  show ?thesis by blast
qed

theorem result_printed_by_tag_witness:
  "run ref_engine ''calc'' [Ret_o ''sub'', Ret_a ''2'', Ret_b ''5''] =
     (0, \<lparr>stdout = ''-3\<newline>'', stderr = [], calls = [Call_sub 2 5]\<rparr>) \<and>
   run ref_engine ''calc'' [Ret_o ''pow'', Ret_a ''2'', Ret_b ''63''] =
     (0, \<lparr>stdout = ''9223372036854775808\<newline>'', stderr = [], calls = [Call_pow 2 63]\<rparr>) \<and>
   main_int ref_engine ''calc'' [Ret_o ''fact'', Ret_a ''5''] =
     (0, \<lparr>stdout = ''120\<newline>'', stderr = [], calls = [Call_fact 5]\<rparr>)"
proof -
  have k1: "calls (snd (run ref_engine ''calc'' [Ret_o ''sub'', Ret_a ''2'', Ret_b ''5''])) =
      [Call_sub 2 5]"
    by (simp add: eval_defs)
  have e1: "engine_result (ref_engine :: 64 word engine) (Call_sub 2 5) =
      \<lparr>r_error = ml_ok, r_kind = kind_i64, r_value = - 3\<rparr>"
    by (simp add: eval_defs)
  have k2: "calls (snd (run ref_engine ''calc'' [Ret_o ''pow'', Ret_a ''2'', Ret_b ''63''])) =
      [Call_pow 2 63]"
    by (simp add: eval_defs)
  have e2: "engine_result (ref_engine :: 64 word engine) (Call_pow 2 63) =
      \<lparr>r_error = ml_ok, r_kind = kind_u64, r_value = 9223372036854775808\<rparr>"
    by (simp add: eval_defs)
  have k3: "calls (snd (main_int ref_engine ''calc'' [Ret_o ''fact'', Ret_a ''5''])) = [Call_fact 5]"
    by (simp add: eval_defs fact_numeral)
  have e3: "engine_result (ref_engine :: 32 word engine) (Call_fact 5) =
      \<lparr>r_error = ml_ok, r_kind = kind_u64, r_value = 120\<rparr>"
    by (simp add: eval_defs fact_numeral)
  from result_printed_by_tag
    [where E = ref_engine and prog = "''calc''" and k = "Call_sub 2 5"
       and rets = "[Ret_o ''sub'', Ret_a ''2'', Ret_b ''5'']"]
    k1 e1
  have r1: "run ref_engine ''calc'' [Ret_o ''sub'', Ret_a ''2'', Ret_b ''5''] =
     (0, \<lparr>stdout = ''-3\<newline>'', stderr = [], calls = [Call_sub 2 5]\<rparr>)"
    by (simp add: eval_defs)
  from result_printed_by_tag
    [where E = ref_engine and prog = "''calc''" and k = "Call_pow 2 63"
       and rets = "[Ret_o ''pow'', Ret_a ''2'', Ret_b ''63'']"]
    k2 e2
  have r2: "run ref_engine ''calc'' [Ret_o ''pow'', Ret_a ''2'', Ret_b ''63''] =
     (0, \<lparr>stdout = ''9223372036854775808\<newline>'', stderr = [], calls = [Call_pow 2 63]\<rparr>)"
    by (simp add: eval_defs)
  from result_printed_by_tag
    [where E' = ref_engine and prog = "''calc''" and k' = "Call_fact 5"
       and rets = "[Ret_o ''fact'', Ret_a ''5'']"]
    k3 e3
  have r3: "main_int ref_engine ''calc'' [Ret_o ''fact'', Ret_a ''5''] =
     (0, \<lparr>stdout = ''120\<newline>'', stderr = [], calls = [Call_fact 5]\<rparr>)"
    by (simp add: eval_defs)
  from r1 r2 r3 show ?thesis by blast
qed

text \<open>The claim as stated fails in the second program: the reference engine returns
  \<open>2 ^ 31\<close> for \<^verbatim>\<open>pow 2 31\<close> under the unsigned tag, and \<^verbatim>\<open>run_operation\<close> prints it as
  a negative number.\<close>

theorem result_printed_by_tag_counterexample:
  "main_int ref_engine ''calc'' [Ret_o ''pow'', Ret_a ''2'', Ret_b ''31''] =
     (0, \<lparr>stdout = ''-2147483648\<newline>'', stderr = [], calls = [Call_pow 2 31]\<rparr>) \<and>
   ml_pow (ref_engine :: 32 word engine) 2 31 =
     \<lparr>r_error = ml_ok, r_kind = kind_u64, r_value = 2147483648\<rparr> \<and>
   dec_digits (unat (2147483648 :: 32 word)) = ''2147483648''"
  by (simp add: eval_defs)

end
